theory Spec2Isabelle
  imports Complex_Main "HOL-Library.AList" "HOL-Library.Log_Nat" "HOL-Library.Code_Target_Numeral"
begin

section \<open>Values of the platform\<close>

text \<open>
  The handlers of \<^verbatim>\<open>routes/vehicles.js\<close> and of the contact router read strings out of
  the request, turn them into numbers with \<^verbatim>\<open>parseInt\<close> and \<^verbatim>\<open>parseFloat\<close>, and hand
  filters to the document store. A string is the list of the bytes of its UTF-8 encoding. An
  exception is a value of the type \<open>exn\<close>, and a computation that may throw returns
  \<open>exn + 'a\<close>. A query parameter is a single string or absent: repeated and nested
  parameters, which the query parser turns into arrays and objects, are outside the model.
\<close>

datatype exn =
    SyntaxError
  | CastError
  | TypeError
  | ValidationError "string list"
  | OtherError string

definition then_do :: "exn + 'a \<Rightarrow> ('a \<Rightarrow> exn + 'b) \<Rightarrow> exn + 'b" where
  "then_do r f = (case r of Inl e \<Rightarrow> Inl e | Inr x \<Rightarrow> f x)"

definition truthy :: "string option \<Rightarrow> bool" where
  \<comment> \<open>\<^verbatim>\<open>if (req.query.x)\<close>: an absent parameter and the empty string are falsy.\<close>
  "truthy x = (case x of None \<Rightarrow> False | Some s \<Rightarrow> s \<noteq> [])"

subsection \<open>Numbers\<close>

text \<open>
  A JavaScript number is a double: \<^verbatim>\<open>NaN\<close>, one of the two infinities, or a finite
  value, which is kept as the rational number it is equal to. The two zeros are one value:
  they are equal and both falsy, and the handlers never divide by a zero. The result of an
  operation is the exact result rounded to the nearest double, a tie going to the even
  mantissa: a mantissa of 53 bits down to the exponent \<open>-1074\<close> of the subnormal numbers,
  and an infinity when the rounded magnitude reaches \<open>2 ^ 1024\<close>.
\<close>

datatype jsnum = NaN | Num rat | PosInf | NegInf

definition floor_log2 :: "rat \<Rightarrow> int" where
  \<comment> \<open>for a positive \<open>x\<close>, the exponent \<open>k\<close> with \<open>2 ^ k \<le> x < 2 ^ (k + 1)\<close>\<close>
  "floor_log2 x =
     (let k = bitlen (fst (quotient_of x)) - bitlen (snd (quotient_of x))
      in if 2 powi k \<le> x then k else k - 1)"

definition round_even :: "rat \<Rightarrow> int" where
  \<comment> \<open>the nearest integer, the even one of the two when they are equally near\<close>
  "round_even q =
     (let f = \<lfloor>q\<rfloor>; r = q - rat_of_int f
      in if r < 1 / 2 then f else if 1 / 2 < r then f + 1 else if even f then f else f + 1)"

definition round_double :: "rat \<Rightarrow> rat" where
  \<comment> \<open>the nearest double, were the exponent unbounded above\<close>
  "round_double x =
     (if x = 0 then 0
      else let e = max (floor_log2 \<bar>x\<bar> - 52) (- 1074)
           in sgn x * (rat_of_int (round_even (\<bar>x\<bar> / 2 powi e)) * 2 powi e))"

definition to_number :: "rat \<Rightarrow> jsnum" where
  "to_number x =
     (let y = round_double x
      in if 2 ^ 1024 \<le> y then PosInf else if y \<le> - (2 ^ 1024) then NegInf else Num y)"

definition is_integer :: "rat \<Rightarrow> bool" where
  "is_integer x = (rat_of_int \<lfloor>x\<rfloor> = x)"

fun js_sub :: "jsnum \<Rightarrow> jsnum \<Rightarrow> jsnum" where
  "js_sub (Num a) (Num b) = to_number (a - b)"
| "js_sub NaN y = NaN"
| "js_sub x NaN = NaN"
| "js_sub PosInf PosInf = NaN"
| "js_sub NegInf NegInf = NaN"
| "js_sub PosInf y = PosInf"
| "js_sub NegInf y = NegInf"
| "js_sub (Num a) PosInf = NegInf"
| "js_sub (Num a) NegInf = PosInf"

definition times_inf :: "bool \<Rightarrow> rat \<Rightarrow> jsnum" where
  \<comment> \<open>the product of an infinity (the positive one when the flag is set) and a finite number\<close>
  "times_inf pos b = (if b = 0 then NaN else if (0 < b) = pos then PosInf else NegInf)"

fun js_mul :: "jsnum \<Rightarrow> jsnum \<Rightarrow> jsnum" where
  "js_mul (Num a) (Num b) = to_number (a * b)"
| "js_mul NaN y = NaN"
| "js_mul x NaN = NaN"
| "js_mul PosInf (Num b) = times_inf True b"
| "js_mul NegInf (Num b) = times_inf False b"
| "js_mul (Num a) PosInf = times_inf True a"
| "js_mul (Num a) NegInf = times_inf False a"
| "js_mul PosInf PosInf = PosInf"
| "js_mul NegInf NegInf = PosInf"
| "js_mul PosInf NegInf = NegInf"
| "js_mul NegInf PosInf = NegInf"

fun js_div :: "jsnum \<Rightarrow> jsnum \<Rightarrow> jsnum" where
  \<comment> \<open>a zero divisor is taken as the positive zero\<close>
  "js_div (Num a) (Num b) =
     (if b = 0 then (if a = 0 then NaN else if 0 < a then PosInf else NegInf)
      else to_number (a / b))"
| "js_div NaN y = NaN"
| "js_div x NaN = NaN"
| "js_div PosInf (Num b) = (if 0 \<le> b then PosInf else NegInf)"
| "js_div NegInf (Num b) = (if 0 \<le> b then NegInf else PosInf)"
| "js_div (Num a) y = Num 0"
| "js_div x y = NaN"

fun js_ceil :: "jsnum \<Rightarrow> jsnum" where
  \<comment> \<open>\<^verbatim>\<open>Math.ceil\<close>\<close>
  "js_ceil (Num a) = Num (rat_of_int \<lceil>a\<rceil>)"
| "js_ceil x = x"

fun js_less :: "jsnum \<Rightarrow> jsnum \<Rightarrow> bool" where
  "js_less (Num a) (Num b) = (a < b)"
| "js_less NaN y = False"
| "js_less x NaN = False"
| "js_less x NegInf = False"
| "js_less PosInf y = False"
| "js_less NegInf y = True"
| "js_less (Num a) PosInf = True"

fun js_le :: "jsnum \<Rightarrow> jsnum \<Rightarrow> bool" where
  "js_le (Num a) (Num b) = (a \<le> b)"
| "js_le NaN y = False"
| "js_le x NaN = False"
| "js_le NegInf y = True"
| "js_le x PosInf = True"
| "js_le x NegInf = False"
| "js_le PosInf y = False"

definition or_default :: "jsnum \<Rightarrow> jsnum \<Rightarrow> jsnum" where
  \<comment> \<open>\<^verbatim>\<open>n || d\<close> on a number: \<^verbatim>\<open>NaN\<close> and zero are falsy.\<close>
  "or_default n d = (if n = NaN \<or> n = Num 0 then d else n)"

subsection \<open>Reading numbers\<close>

text \<open>
  \<^verbatim>\<open>parseInt\<close>, \<^verbatim>\<open>parseFloat\<close> and \<^verbatim>\<open>trim\<close> skip white space: the characters tab,
  line feed, vertical tab, form feed, carriage return and space, of one byte each, the
  no-break space \<^verbatim>\<open>U+00A0\<close> of two bytes, and \<^verbatim>\<open>U+1680\<close>, \<^verbatim>\<open>U+2000\<close> to
  \<^verbatim>\<open>U+200A\<close>, \<^verbatim>\<open>U+2028\<close>, \<^verbatim>\<open>U+2029\<close>, \<^verbatim>\<open>U+202F\<close>, \<^verbatim>\<open>U+205F\<close>, \<^verbatim>\<open>U+3000\<close>
  and \<^verbatim>\<open>U+FEFF\<close> of three bytes each.
\<close>

definition is_digit :: "char \<Rightarrow> bool" where
  "is_digit c = (48 \<le> (of_char c :: nat) \<and> (of_char c :: nat) \<le> 57)"

definition space1 :: "char \<Rightarrow> bool" where
  \<comment> \<open>the white space of one byte: tab, line feed, vertical tab, form feed, carriage
      return, space\<close>
  "space1 c = ((9 \<le> (of_char c :: nat) \<and> (of_char c :: nat) \<le> 13) \<or> (of_char c :: nat) = 32)"

definition space2 :: "char \<Rightarrow> char \<Rightarrow> bool" where
  \<comment> \<open>the white space of two bytes\<close>
  "space2 a b = ((of_char a :: nat) = 0xC2 \<and> (of_char b :: nat) = 0xA0)"

definition space3 :: "char \<Rightarrow> char \<Rightarrow> char \<Rightarrow> bool" where
  \<comment> \<open>the white space of three bytes\<close>
  "space3 a b c =
     (let x = (of_char a :: nat); y = (of_char b :: nat); z = (of_char c :: nat)
      in (x = 0xE1 \<and> y = 0x9A \<and> z = 0x80)
       \<or> (x = 0xE2 \<and> y = 0x80 \<and> ((0x80 \<le> z \<and> z \<le> 0x8A) \<or> z = 0xA8 \<or> z = 0xA9 \<or> z = 0xAF))
       \<or> (x = 0xE2 \<and> y = 0x81 \<and> z = 0x9F)
       \<or> (x = 0xE3 \<and> y = 0x80 \<and> z = 0x80)
       \<or> (x = 0xEF \<and> y = 0xBB \<and> z = 0xBF))"

fun skip_space :: "string \<Rightarrow> string" where
  \<comment> \<open>the string without its leading white space\<close>
  "skip_space (a # b # c # cs) =
     (if space1 a then skip_space (b # c # cs)
      else if space2 a b then skip_space (c # cs)
      else if space3 a b c then skip_space cs
      else a # b # c # cs)"
| "skip_space [a, b] = (if space1 a then skip_space [b] else if space2 a b then [] else [a, b])"
| "skip_space [a] = (if space1 a then [] else [a])"
| "skip_space [] = []"

fun skip_space_back :: "string \<Rightarrow> string" where
  \<comment> \<open>on a reversed string: the string without the white space that was at its end\<close>
  "skip_space_back (c # b # a # cs) =
     (if space1 c then skip_space_back (b # a # cs)
      else if space2 b c then skip_space_back (a # cs)
      else if space3 a b c then skip_space_back cs
      else c # b # a # cs)"
| "skip_space_back [b, a] = (if space1 b then skip_space_back [a] else if space2 a b then [] else [b, a])"
| "skip_space_back [a] = (if space1 a then [] else [a])"
| "skip_space_back [] = []"

definition trim :: "string \<Rightarrow> string" where
  "trim s = rev (skip_space_back (rev (skip_space s)))"

definition digit_value :: "nat \<Rightarrow> char \<Rightarrow> nat option" where
  \<comment> \<open>the value of a digit in radix \<open>R\<close>: 0-9, then a-z or A-Z\<close>
  "digit_value R c =
     (let n = (of_char c :: nat);
          d = (if 48 \<le> n \<and> n \<le> 57 then Some (n - 48)
               else if 97 \<le> n \<and> n \<le> 122 then Some (n - 87)
               else if 65 \<le> n \<and> n \<le> 90 then Some (n - 55)
               else None)
      in case d of None \<Rightarrow> None | Some v \<Rightarrow> if v < R then Some v else None)"

fun read_digits :: "nat \<Rightarrow> nat \<Rightarrow> string \<Rightarrow> nat" where
  "read_digits R acc [] = acc"
| "read_digits R acc (c # cs) =
     (case digit_value R c of
        None \<Rightarrow> acc
      | Some d \<Rightarrow> read_digits R (acc * R + d) cs)"

definition is_sign :: "char \<Rightarrow> bool" where
  "is_sign c = (c = CHR ''-'' \<or> c = CHR ''+'')"

definition drop_sign :: "string \<Rightarrow> string" where
  "drop_sign s = (case s of [] \<Rightarrow> [] | c # cs \<Rightarrow> if is_sign c then cs else s)"

definition negative :: "string \<Rightarrow> bool" where
  "negative s = (case s of [] \<Rightarrow> False | c # cs \<Rightarrow> c = CHR ''-'')"

definition parseInt :: "string \<Rightarrow> jsnum" where
  \<comment> \<open>\<^verbatim>\<open>parseInt(s)\<close> with no radix: leading white space, a sign, the prefix \<^verbatim>\<open>0x\<close>
      for radix 16, then the longest run of digits, whose value is rounded to a double.\<close>
  "parseInt s =
     (let s1 = skip_space s;
          s2 = drop_sign s1;
          hex = (case s2 of a # b # _ \<Rightarrow> a = CHR ''0'' \<and> (b = CHR ''x'' \<or> b = CHR ''X'') | _ \<Rightarrow> False);
          R = (if hex then 16 else 10);
          s3 = (if hex then drop 2 s2 else s2)
      in case s3 of
           [] \<Rightarrow> NaN
         | c # _ \<Rightarrow>
             (case digit_value R c of
                None \<Rightarrow> NaN
              | Some _ \<Rightarrow>
                  to_number (rat_of_int ((if negative s1 then - 1 else 1) * int (read_digits R 0 s3)))))"

definition parseInt_param :: "string option \<Rightarrow> jsnum" where
  \<comment> \<open>\<^verbatim>\<open>parseInt(req.query.x)\<close>: an absent parameter is \<^verbatim>\<open>undefined\<close>, read as the
      string \<^verbatim>\<open>undefined\<close>.\<close>
  "parseInt_param x = parseInt (case x of None \<Rightarrow> ''undefined'' | Some s \<Rightarrow> s)"

definition exponent_part :: "string \<Rightarrow> int" where
  \<comment> \<open>the exponent of a decimal literal, 0 when the rest is no exponent part\<close>
  "exponent_part r =
     (case r of
        [] \<Rightarrow> 0
      | e # r1 \<Rightarrow>
          if (e = CHR ''e'' \<or> e = CHR ''E'') \<and> takeWhile is_digit (drop_sign r1) \<noteq> []
          then (if negative r1 then - 1 else 1) * int (read_digits 10 0 (drop_sign r1))
          else 0)"

definition scale10 :: "rat \<Rightarrow> int \<Rightarrow> rat" where
  "scale10 m e = (if 0 \<le> e then m * 10 ^ nat e else m / 10 ^ nat (- e))"

definition parseFloat :: "string \<Rightarrow> jsnum" where
  \<comment> \<open>\<^verbatim>\<open>parseFloat(s)\<close>: leading white space, a sign, then the word \<^verbatim>\<open>Infinity\<close> or the
      longest prefix that is a decimal literal (digits, a fraction, an exponent), whose value
      is rounded to a double.\<close>
  "parseFloat s =
     (let s1 = skip_space s;
          s2 = drop_sign s1;
          ip = takeWhile is_digit s2;
          r1 = dropWhile is_digit s2;
          dot = (case r1 of [] \<Rightarrow> False | c # _ \<Rightarrow> c = CHR ''.'');
          fp = (if dot then takeWhile is_digit (tl r1) else []);
          r2 = (if dot then dropWhile is_digit (tl r1) else r1);
          m = rat_of_nat (read_digits 10 0 (ip @ fp)) / 10 ^ length fp
      in if take 8 s2 = ''Infinity'' then (if negative s1 then NegInf else PosInf)
         else if ip = [] \<and> fp = [] then NaN
         else to_number ((if negative s1 then - 1 else 1) * scale10 m (exponent_part r2)))"

section \<open>The checks of the validator library\<close>

text \<open>
  \<^verbatim>\<open>isInt\<close> tests the string against \<^verbatim>\<open>/^[-+]?[0-9]+$/\<close> and compares it, converted
  to a number, with the bounds. \<^verbatim>\<open>isFloat\<close> refuses five one-character strings, tests
  \<^verbatim>\<open>/^[-+]?[0-9]*(\.[0-9]*)?([eE][+-]?[0-9]+)?$/\<close> and compares \<^verbatim>\<open>parseFloat\<close> of the
  string with the lower bound, which \<^verbatim>\<open>NaN\<close> never meets. Both comparisons are
  comparisons of doubles.
\<close>

definition int_shaped :: "string \<Rightarrow> bool" where
  "int_shaped s = (drop_sign s \<noteq> [] \<and> list_all is_digit (drop_sign s))"

definition int_value :: "string \<Rightarrow> int" where
  \<comment> \<open>the number an integer-shaped string denotes\<close>
  "int_value s = (if negative s then - 1 else 1) * int (read_digits 10 0 (drop_sign s))"

definition isInt :: "int option \<Rightarrow> int option \<Rightarrow> string \<Rightarrow> bool" where
  \<comment> \<open>\<^verbatim>\<open>str >= min\<close> and \<^verbatim>\<open>str <= max\<close> convert the string to a number\<close>
  "isInt lo hi s =
     (int_shaped s
      \<and> (case lo of None \<Rightarrow> True
          | Some m \<Rightarrow> js_le (Num (rat_of_int m)) (to_number (rat_of_int (int_value s))))
      \<and> (case hi of None \<Rightarrow> True
          | Some m \<Rightarrow> js_le (to_number (rat_of_int (int_value s))) (Num (rat_of_int m))))"

definition float_shaped :: "string \<Rightarrow> bool" where
  "float_shaped s =
     (let r1 = dropWhile is_digit (drop_sign s);
          r2 = (case r1 of [] \<Rightarrow> [] | c # cs \<Rightarrow> if c = CHR ''.'' then dropWhile is_digit cs else r1)
      in case r2 of
           [] \<Rightarrow> True
         | e # r3 \<Rightarrow>
             (e = CHR ''e'' \<or> e = CHR ''E'') \<and> drop_sign r3 \<noteq> [] \<and> list_all is_digit (drop_sign r3))"

fun replace_comma :: "string \<Rightarrow> string" where
  \<comment> \<open>\<^verbatim>\<open>str.replace(',', '.')\<close>: the first comma only\<close>
  "replace_comma [] = []"
| "replace_comma (c # cs) = (if c = CHR '','' then CHR ''.'' # cs else c # replace_comma cs)"

definition isFloat :: "rat option \<Rightarrow> string \<Rightarrow> bool" where
  "isFloat lo s =
     (if s = [] \<or> s = ''.'' \<or> s = '','' \<or> s = ''-'' \<or> s = ''+'' then False
      else float_shaped s
           \<and> (case lo of
                 None \<Rightarrow> True
               | Some m \<Rightarrow> js_le (Num m) (parseFloat (replace_comma s))))"

text \<open>
  A value of a request body, of a document or of a response. An entry of the error list
  names the field, carries the message of the failed check and shows the value that failed.
\<close>

datatype jv = JUndefined | JNull | JBool bool | JNum jsnum | JStr string | JDate int

record verror =
  err_path :: string
  err_msg :: string
  err_value :: jv

type_synonym query = "string \<Rightarrow> string option"

definition check_optional :: "query \<Rightarrow> string \<Rightarrow> (string \<Rightarrow> bool) \<Rightarrow> string \<Rightarrow> verror list" where
  \<comment> \<open>\<^verbatim>\<open>query(field).optional().<check>.withMessage(m)\<close>: an absent parameter is skipped,
      a present one (the empty string too) is checked.\<close>
  "check_optional q field ok m =
     (case q field of
        None \<Rightarrow> []
      | Some s \<Rightarrow> if ok s then [] else [\<lparr>err_path = field, err_msg = m, err_value = JStr s\<rparr>])"

section \<open>Regular expressions\<close>

text \<open>
  The listing handler builds \<^verbatim>\<open>new RegExp(text, 'i')\<close> from the caller's text and the store
  searches the field for it. A pattern is kept as its source text. On the fragment modelled
  here (printable ASCII with no metacharacter but the bar of alternation) the meaning is
  computed: the pattern is an alternation of literal texts, each searched anywhere in the
  subject with ASCII letters compared without case. Outside the fragment the engine is a
  parameter of the model: \<open>re_valid\<close> says whether the constructor accepts the pattern (it
  throws \<^verbatim>\<open>SyntaxError\<close> otherwise) and \<open>re_search\<close> whether the pattern is found.
\<close>

definition meta_chars :: "char list" where
  "meta_chars = [CHR 0x5C, CHR ''^'', CHR ''$'', CHR ''.'', CHR ''*'', CHR ''+'', CHR ''?'',
     CHR ''('', CHR '')'', CHR ''['', CHR '']'', CHR ''{'', CHR ''}'', CHR ''|'']"

definition plain_char :: "char \<Rightarrow> bool" where
  "plain_char c =
     (32 \<le> (of_char c :: nat) \<and> (of_char c :: nat) \<le> 126 \<and> c \<notin> set meta_chars)"

definition in_fragment :: "string \<Rightarrow> bool" where
  "in_fragment p = list_all (\<lambda>c. plain_char c \<or> c = CHR ''|'') p"

definition lower :: "char \<Rightarrow> nat" where
  \<comment> \<open>the code of a character, with the capital ASCII letters moved onto the small ones\<close>
  "lower c =
     (if 65 \<le> (of_char c :: nat) \<and> (of_char c :: nat) \<le> 90
      then (of_char c :: nat) + 32 else of_char c)"

fun prefix_ci :: "string \<Rightarrow> string \<Rightarrow> bool" where
  "prefix_ci [] s = True"
| "prefix_ci (p # ps) [] = False"
| "prefix_ci (p # ps) (c # cs) = (lower p = lower c \<and> prefix_ci ps cs)"

fun search_ci :: "string \<Rightarrow> string \<Rightarrow> bool" where
  "search_ci p [] = (p = [])"
| "search_ci p (c # cs) = (prefix_ci p (c # cs) \<or> search_ci p cs)"

fun split_bar :: "string \<Rightarrow> string list" where
  "split_bar [] = [[]]"
| "split_bar (c # cs) =
     (if c = CHR ''|'' then [] # split_bar cs
      else (case split_bar cs of [] \<Rightarrow> [[c]] | a # as \<Rightarrow> (c # a) # as))"

section \<open>Documents\<close>

text \<open>
  A vehicle document has the paths of \<^verbatim>\<open>vehicleSchema\<close>, its identifier and the two
  timestamps. A \<^verbatim>\<open>Number\<close> path holds a finite number (an infinity, which a body can
  bring as \<^verbatim>\<open>1e999\<close>, is outside the model), a date is a count of milliseconds.
\<close>

record location =
  city :: "string option"
  state :: "string option"
  country :: "string option"
  zipCode :: "string option"

record vehicle =
  oid :: string
  make_v :: string
  model :: string
  year :: rat
  price :: rat
  originalPrice :: "rat option"
  mileage :: rat
  fuelType :: string
  transmission :: string
  bodyType :: string
  engine :: string
  color :: "string option"
  image_v :: string
  features :: "string list"
  condition :: string
  badge :: "string option"
  location :: "location option"
  dealer :: string
  status :: string
  views :: rat
  isActive :: bool
  createdAt :: int
  updatedAt :: int

text \<open>Modelled from the spec: the user model is not among the sources; a dealer is shown
  in a response as a summary of name, email and phone.\<close>

record dealer_summary =
  u_name :: string
  u_email :: string
  u_phone :: "string option"

text \<open>Modelled from the spec: the contact model is not among the sources. An inquiry has
  the sender's name, email and optional phone, a subject, a message, an inquiry type, the
  vehicle it is about, that vehicle's dealer, a read flag (false at creation) and a status
  (\<^verbatim>\<open>new\<close> at creation).\<close>

record contact =
  c_oid :: string
  c_name :: string
  c_email :: string
  c_phone :: "string option"
  c_subject :: string
  c_message :: string
  c_inquiryType :: "string option"
  c_vehicleId :: "string option"
  c_dealerId :: string
  c_isRead :: bool
  c_status :: string

definition field :: "string \<Rightarrow> vehicle \<Rightarrow> jv" where
  \<comment> \<open>the value of a document at a path named in a filter\<close>
  "field k v =
     (if k = ''isActive'' then JBool (isActive v)
      else if k = ''status'' then JStr (status v)
      else if k = ''make'' then JStr (make_v v)
      else if k = ''model'' then JStr (model v)
      else if k = ''year'' then JNum (Num (year v))
      else if k = ''condition'' then JStr (condition v)
      else if k = ''fuelType'' then JStr (fuelType v)
      else if k = ''transmission'' then JStr (transmission v)
      else if k = ''bodyType'' then JStr (bodyType v)
      else if k = ''price'' then JNum (Num (price v))
      else JNull)"

section \<open>Filters and the store\<close>

text \<open>
  The filter is a JavaScript object: an association list from paths to conditions, where
  an assignment \<^verbatim>\<open>filter.k = c\<close> replaces the entry of \<open>k\<close> or adds one. A condition is a
  value to equal, a regular expression to find, or the object \<^verbatim>\<open>{$gte, $lte}\<close> with either
  bound present or not.
\<close>

datatype cond =
    Eq jv
  | Matches string
  | Range "jsnum option" "jsnum option"

type_synonym filter = "(string \<times> cond) list"
type_synonym sort = "string \<times> int"

datatype store_op =
    VehicleFind filter sort jsnum jsnum
  | VehicleCount filter
  | VehicleFindById string
  | VehicleSave string
  | VehicleCreate
  | VehicleFindByIdAndUpdate string
  | VehicleFindByIdAndDelete string
  | ContactCreate
  | ContactFindByIdAndUpdate string

text \<open>
  The store holds the two collections in their natural order, the users by identifier (for
  the dealer summaries), and a log of the calls it has received.
\<close>

record db =
  vehicles :: "vehicle list"
  users :: "string \<Rightarrow> dealer_summary option"
  contacts :: "contact list"
  oplog :: "store_op list"

text \<open>
  What the model takes from its surroundings: the regular-expression engine outside the
  fragment, the store's comparison of two documents on a field, what the driver and the
  store make of a skip or a limit that is no safe integer (an error, or a number of
  documents to skip and a number to keep, if any), the clock, the year in which
  the process started (the schema and the routes compute their bound on \<^verbatim>\<open>year\<close> once,
  at load), the identifier the driver generates for a new document, the validator library's
  \<^verbatim>\<open>isEmail\<close> and \<^verbatim>\<open>normalizeEmail\<close>, and the validators of the contact schema, which
  is not among the sources.
\<close>

record platform =
  re_valid :: "string \<Rightarrow> bool"
  re_search :: "string \<Rightarrow> string \<Rightarrow> bool"
  collate :: "string \<Rightarrow> vehicle \<Rightarrow> vehicle \<Rightarrow> bool"
  other_window :: "jsnum \<Rightarrow> jsnum \<Rightarrow> exn + nat \<times> nat option"
  now :: int
  startYear :: int
  next_oid :: string
  is_email :: "string \<Rightarrow> bool"
  normalize_email :: "string \<Rightarrow> string"
  contact_errors :: "contact \<Rightarrow> string list"

definition RegExp_new :: "platform \<Rightarrow> string \<Rightarrow> exn + string" where
  "RegExp_new P p = (if in_fragment p \<or> re_valid P p then Inr p else Inl SyntaxError)"

definition regex_test :: "platform \<Rightarrow> string \<Rightarrow> string \<Rightarrow> bool" where
  "regex_test P p s =
     (if in_fragment p then list_ex (\<lambda>a. search_ci a s) (split_bar p) else re_search P p s)"

fun holds :: "platform \<Rightarrow> cond \<Rightarrow> jv \<Rightarrow> bool" where
  "holds P (Eq a) x = (x = a)"
| "holds P (Matches p) x = (case x of JStr s \<Rightarrow> regex_test P p s | _ \<Rightarrow> False)"
| "holds P (Range lo hi) x =
     (case x of
        JNum r \<Rightarrow>
          (lo \<noteq> None \<or> hi \<noteq> None)
          \<and> (case lo of Some a \<Rightarrow> js_le a r | None \<Rightarrow> True)
          \<and> (case hi of Some b \<Rightarrow> js_le r b | None \<Rightarrow> True)
      | _ \<Rightarrow> False)"

definition matches :: "platform \<Rightarrow> filter \<Rightarrow> vehicle \<Rightarrow> bool" where
  "matches P flt v = list_all (\<lambda>(k, c). holds P c (field k v)) flt"

fun has_nan :: "cond \<Rightarrow> bool" where
  "has_nan (Eq a) = (a = JNum NaN)"
| "has_nan (Matches p) = False"
| "has_nan (Range lo hi) = (lo = Some NaN \<or> hi = Some NaN)"

definition cast_filter :: "filter \<Rightarrow> exn + filter" where
  \<comment> \<open>the store casts the values of a filter to the types of the schema: \<^verbatim>\<open>NaN\<close> is no
      \<^verbatim>\<open>Number\<close>, and the query fails with a \<^verbatim>\<open>CastError\<close>\<close>
  "cast_filter flt = (if list_ex (\<lambda>(k, c). has_nan c) flt then Inl CastError else Inr flt)"

fun insert_by :: "('a \<Rightarrow> 'a \<Rightarrow> bool) \<Rightarrow> 'a \<Rightarrow> 'a list \<Rightarrow> 'a list" where
  "insert_by le x [] = [x]"
| "insert_by le x (y # ys) = (if le x y then x # y # ys else y # insert_by le x ys)"

definition order_docs :: "platform \<Rightarrow> sort \<Rightarrow> vehicle list \<Rightarrow> vehicle list" where
  \<comment> \<open>\<^verbatim>\<open>.sort({field: dir})\<close>: how the store compares two documents on a field is the
      parameter \<open>collate\<close>; the direction \<open>-1\<close> turns the comparison round\<close>
  "order_docs P srt xs =
     foldr (insert_by (if snd srt = - 1 then (\<lambda>a b. collate P (fst srt) b a) else collate P (fst srt))) xs []"

definition safe_integer :: "jsnum \<Rightarrow> bool" where
  \<comment> \<open>a whole number of magnitude below \<open>2 ^ 53\<close>\<close>
  "safe_integer x = (case x of Num r \<Rightarrow> is_integer r \<and> \<bar>r\<bar> \<le> 2 ^ 53 - 1 | _ \<Rightarrow> False)"

definition number_of :: "jsnum \<Rightarrow> rat" where
  "number_of x = (case x of Num r \<Rightarrow> r | _ \<Rightarrow> 0)"

definition store_window :: "platform \<Rightarrow> jsnum \<Rightarrow> jsnum \<Rightarrow> exn + nat \<times> nat option" where
  \<comment> \<open>\<^verbatim>\<open>.skip(s).limit(l)\<close> on safe integers: the store refuses a negative skip; a limit of
      0 is no limit, a negative one is its absolute value\<close>
  "store_window P skip limit =
     (if safe_integer skip \<and> safe_integer limit
      then if number_of skip < 0 then Inl (OtherError ''skip'')
           else Inr (nat \<lfloor>number_of skip\<rfloor>,
                     if number_of limit = 0 then None else Some (nat \<lfloor>\<bar>number_of limit\<bar>\<rfloor>))
      else other_window P skip limit)"

definition window :: "nat \<times> nat option \<Rightarrow> 'a list \<Rightarrow> 'a list" where
  "window w xs = (case snd w of None \<Rightarrow> drop (fst w) xs | Some n \<Rightarrow> take n (drop (fst w) xs))"

definition Vehicle_find :: "platform \<Rightarrow> db \<Rightarrow> filter \<Rightarrow> sort \<Rightarrow> jsnum \<Rightarrow> jsnum \<Rightarrow> (exn + vehicle list) \<times> db" where
  \<comment> \<open>\<^verbatim>\<open>Vehicle.find(filter).sort(sort).skip(skip).limit(limit)\<close>\<close>
  "Vehicle_find P d flt srt skip limit =
     (let d1 = d\<lparr>oplog := oplog d @ [VehicleFind flt srt skip limit]\<rparr>
      in case cast_filter flt of
           Inl e \<Rightarrow> (Inl e, d1)
         | Inr f \<Rightarrow>
             (case store_window P skip limit of
                Inl e \<Rightarrow> (Inl e, d1)
              | Inr w \<Rightarrow> (Inr (window w (order_docs P srt (filter (matches P f) (vehicles d)))), d1)))"

definition Vehicle_countDocuments :: "platform \<Rightarrow> db \<Rightarrow> filter \<Rightarrow> (exn + nat) \<times> db" where
  "Vehicle_countDocuments P d flt =
     (let d1 = d\<lparr>oplog := oplog d @ [VehicleCount flt]\<rparr>
      in case cast_filter flt of
           Inl e \<Rightarrow> (Inl e, d1)
         | Inr f \<Rightarrow> (Inr (length (filter (matches P f) (vehicles d))), d1))"

definition populate :: "db \<Rightarrow> vehicle \<Rightarrow> vehicle \<times> dealer_summary option" where
  \<comment> \<open>\<^verbatim>\<open>.populate('dealer', 'name email phone')\<close>\<close>
  "populate d v = (v, users d (dealer v))"

section \<open>Responses\<close>

record pagination =
  currentPage :: jsnum
  totalPages :: jsnum
  totalVehicles :: jsnum
  hasNextPage :: bool
  hasPrevPage :: bool

datatype payload =
    VehicleData "(vehicle \<times> dealer_summary option) option"
  | ContactData contact

text \<open>
  \<open>Failure\<close> is a status with the body \<^verbatim>\<open>{success: false, message, errors?}\<close>, \<open>Success\<close> a
  status with \<^verbatim>\<open>{success: true, message, data?}\<close>; \<open>Listing\<close> and \<open>Single\<close> are the bare
  bodies \<^verbatim>\<open>{vehicles, pagination}\<close> and \<^verbatim>\<open>{vehicle}\<close>, sent with status 200.
\<close>

datatype err_detail = Fields "verror list" | Messages "string list"

datatype response =
    Failure nat string "err_detail option"
  | Listing "(vehicle \<times> dealer_summary option) list" pagination
  | Single "vehicle \<times> dealer_summary option"
  | Success nat string "payload option"

fun status_code :: "response \<Rightarrow> nat" where
  "status_code (Failure n m es) = n"
| "status_code (Listing vs pg) = 200"
| "status_code (Single v) = 200"
| "status_code (Success n m p) = n"

definition catch :: "string \<Rightarrow> (exn + response) \<times> db \<Rightarrow> response \<times> db" where
  \<comment> \<open>the \<^verbatim>\<open>try { ... } catch (error)\<close> round every handler's body: whatever was thrown,
      the answer is 500 with the handler's message\<close>
  "catch m r = (case fst r of Inl e \<Rightarrow> (Failure 500 m None, snd r) | Inr resp \<Rightarrow> (resp, snd r))"

section \<open>GET /api/vehicles\<close>

definition list_validation :: "query \<Rightarrow> verror list" where
  "list_validation q =
     check_optional q ''page'' (isInt (Some 1) None) ''Page must be a positive integer''
     @ check_optional q ''limit'' (isInt (Some 1) (Some 50)) ''Limit must be between 1 and 50''
     @ check_optional q ''minPrice'' (isFloat (Some 0)) ''Min price must be positive''
     @ check_optional q ''maxPrice'' (isFloat (Some 0)) ''Max price must be positive''"

definition base_filter :: filter where
  "base_filter = [(''isActive'', Eq (JBool True)), (''status'', Eq (JStr ''available''))]"

definition assign_regex :: "platform \<Rightarrow> query \<Rightarrow> string \<Rightarrow> filter \<Rightarrow> exn + filter" where
  \<comment> \<open>\<^verbatim>\<open>if (req.query.k) filter.k = new RegExp(req.query.k, 'i')\<close>\<close>
  "assign_regex P q k f =
     (if truthy (q k)
      then then_do (RegExp_new P (the (q k))) (\<lambda>re. Inr (AList.update k (Matches re) f))
      else Inr f)"

definition assign_eq :: "query \<Rightarrow> string \<Rightarrow> filter \<Rightarrow> filter" where
  \<comment> \<open>\<^verbatim>\<open>if (req.query.k) filter.k = req.query.k\<close>\<close>
  "assign_eq q k f = (if truthy (q k) then AList.update k (Eq (JStr (the (q k)))) f else f)"

definition assign_year :: "query \<Rightarrow> filter \<Rightarrow> filter" where
  \<comment> \<open>\<^verbatim>\<open>if (req.query.year) filter.year = parseInt(req.query.year)\<close>\<close>
  "assign_year q f =
     (if truthy (q ''year'')
      then AList.update ''year'' (Eq (JNum (parseInt_param (q ''year'')))) f
      else f)"

definition assign_price :: "query \<Rightarrow> filter \<Rightarrow> filter" where
  "assign_price q f =
     (if truthy (q ''minPrice'') \<or> truthy (q ''maxPrice'')
      then AList.update ''price''
             (Range (if truthy (q ''minPrice'') then Some (parseFloat (the (q ''minPrice''))) else None)
                    (if truthy (q ''maxPrice'') then Some (parseFloat (the (q ''maxPrice''))) else None)) f
      else f)"

definition build_filter :: "platform \<Rightarrow> query \<Rightarrow> exn + filter" where
  "build_filter P q =
     then_do (assign_regex P q ''make'' base_filter) (\<lambda>f1.
     then_do (assign_regex P q ''model'' f1) (\<lambda>f2.
       Inr (assign_price q
             (assign_eq q ''bodyType''
               (assign_eq q ''transmission''
                 (assign_eq q ''fuelType''
                   (assign_eq q ''condition''
                     (assign_year q f2))))))))"

definition build_sort :: "query \<Rightarrow> sort" where
  "build_sort q =
     (if truthy (q ''sortBy'')
      then (the (q ''sortBy''), if q ''sortOrder'' = Some ''desc'' then - 1 else 1)
      else (''createdAt'', - 1))"

definition page_of :: "query \<Rightarrow> jsnum" where
  "page_of q = or_default (parseInt_param (q ''page'')) (Num 1)"

definition limit_of :: "query \<Rightarrow> jsnum" where
  "limit_of q = or_default (parseInt_param (q ''limit'')) (Num 10)"

definition make_pagination :: "jsnum \<Rightarrow> jsnum \<Rightarrow> nat \<Rightarrow> pagination" where
  \<comment> \<open>the count of the store comes as a number\<close>
  "make_pagination page limit n =
     (let tot = to_number (rat_of_nat n);
          pages = js_ceil (js_div tot limit)
      in \<lparr>currentPage = page, totalPages = pages, totalVehicles = tot,
          hasNextPage = js_less page pages, hasPrevPage = js_less (Num 1) page\<rparr>)"

definition list_vehicles_body :: "platform \<Rightarrow> db \<Rightarrow> query \<Rightarrow> (exn + response) \<times> db" where
  "list_vehicles_body P d q =
     (let errors = list_validation q in
      if errors \<noteq> [] then (Inr (Failure 400 ''Validation failed'' (Some (Fields errors))), d)
      else
        let page = page_of q; limit = limit_of q; skip = js_mul (js_sub page (Num 1)) limit
        in case build_filter P q of
             Inl e \<Rightarrow> (Inl e, d)
           | Inr flt \<Rightarrow>
               (case Vehicle_find P d flt (build_sort q) skip limit of
                  (Inl e, d1) \<Rightarrow> (Inl e, d1)
                | (Inr vs, d1) \<Rightarrow>
                    (case Vehicle_countDocuments P d1 flt of
                       (Inl e, d2) \<Rightarrow> (Inl e, d2)
                     | (Inr n, d2) \<Rightarrow>
                         (Inr (Listing (map (populate d2) vs) (make_pagination page limit n)), d2))))"

definition list_vehicles :: "platform \<Rightarrow> db \<Rightarrow> query \<Rightarrow> response \<times> db" where
  "list_vehicles P d q = catch ''Server error'' (list_vehicles_body P d q)"

section \<open>Identifiers and single documents\<close>

text \<open>
  An identifier in a path or a body is a string. The store casts it to an object identifier
  when it is 24 hexadecimal digits and throws a \<^verbatim>\<open>CastError\<close> otherwise; two identifiers
  are the same when they agree up to the case of the hexadecimal letters.
\<close>

definition is_hex :: "char \<Rightarrow> bool" where
  "is_hex c = (case digit_value 16 c of None \<Rightarrow> False | Some d \<Rightarrow> True)"

definition valid_oid :: "string \<Rightarrow> bool" where
  "valid_oid s = (length s = 24 \<and> list_all is_hex s)"

definition same_oid :: "string \<Rightarrow> string \<Rightarrow> bool" where
  "same_oid a b = (map lower a = map lower b)"

definition Vehicle_findById :: "db \<Rightarrow> string option \<Rightarrow> (exn + vehicle option) \<times> db" where
  \<comment> \<open>\<^verbatim>\<open>Vehicle.findById(id)\<close>; an absent identifier finds nothing\<close>
  "Vehicle_findById d i =
     (case i of
        None \<Rightarrow> (Inr None, d\<lparr>oplog := oplog d @ [VehicleFindById []]\<rparr>)
      | Some s \<Rightarrow>
          (let d1 = d\<lparr>oplog := oplog d @ [VehicleFindById s]\<rparr>
           in if valid_oid s then (Inr (find (\<lambda>v. same_oid (oid v) s) (vehicles d)), d1)
              else (Inl CastError, d1)))"

fun replace_first :: "('a \<Rightarrow> bool) \<Rightarrow> 'a \<Rightarrow> 'a list \<Rightarrow> 'a list" where
  "replace_first p y [] = []"
| "replace_first p y (x # xs) = (if p x then y # xs else x # replace_first p y xs)"

fun remove_first :: "('a \<Rightarrow> bool) \<Rightarrow> 'a list \<Rightarrow> 'a list" where
  "remove_first p [] = []"
| "remove_first p (x # xs) = (if p x then xs else x # remove_first p xs)"

section \<open>The vehicle schema\<close>

text \<open>
  The validators of \<^verbatim>\<open>vehicleSchema\<close>, path by path, each giving the messages of its
  failures. A required string fails when empty. The bound on the year is the year the
  process started in, plus one.
\<close>

definition fuelTypes :: "string list" where
  "fuelTypes = [''Petrol'', ''Diesel'', ''Hybrid'', ''Electric'', ''CNG'', ''LPG'']"

definition transmissions :: "string list" where
  "transmissions = [''Manual'', ''Automatic'', ''CVT'', ''Semi-Automatic'']"

definition bodyTypes :: "string list" where
  "bodyTypes = [''SUV'', ''Sedan'', ''Hatchback'', ''Coupe'', ''Convertible'', ''Truck'', ''Van'', ''Wagon'']"

definition conditions :: "string list" where
  "conditions = [''New'', ''Used'', ''Certified Pre-Owned'']"

definition badges :: "string list" where
  "badges = [''Great Price'', ''Low Mileage'', ''Sale'', ''Featured'', ''Hot Deal'']"

definition statuses :: "string list" where
  "statuses = [''available'', ''sold'', ''reserved'', ''pending'']"

definition required_string :: "string \<Rightarrow> string \<Rightarrow> string list" where
  "required_string m s = (if s = [] then [m] else [])"

definition in_enum :: "string list \<Rightarrow> string \<Rightarrow> string \<Rightarrow> string list" where
  "in_enum allowed path s =
     (if s \<in> set allowed then [] else [''not a valid enum value for path '' @ path])"

definition required_enum :: "string list \<Rightarrow> string \<Rightarrow> string \<Rightarrow> string \<Rightarrow> string list" where
  "required_enum allowed path m s = (if s = [] then [m] else in_enum allowed path s)"

definition at_least :: "rat \<Rightarrow> string \<Rightarrow> rat \<Rightarrow> string list" where
  "at_least lo m x = (if x < lo then [m] else [])"

definition year_errors :: "platform \<Rightarrow> rat \<Rightarrow> string list" where
  "year_errors P y =
     (if y < 1900 then [''Year must be after 1900''] else [])
     @ (if rat_of_int (startYear P + 1) < y then [''Year cannot be in the future''] else [])"

definition dealer_errors :: "string \<Rightarrow> string list" where
  "dealer_errors i = (if valid_oid i then [] else [''Cast to ObjectId failed for path dealer''])"

definition schema_errors :: "platform \<Rightarrow> vehicle \<Rightarrow> string list" where
  \<comment> \<open>validation of a whole document, as \<^verbatim>\<open>save()\<close> runs it\<close>
  "schema_errors P v =
     required_string ''Make is required'' (make_v v)
     @ required_string ''Model is required'' (model v)
     @ year_errors P (year v)
     @ at_least 0 ''Price must be positive'' (price v)
     @ (case originalPrice v of None \<Rightarrow> [] | Some x \<Rightarrow> at_least 0 ''Original price must be positive'' x)
     @ at_least 0 ''Mileage must be positive'' (mileage v)
     @ required_enum fuelTypes ''fuelType'' ''Fuel type is required'' (fuelType v)
     @ required_enum transmissions ''transmission'' ''Transmission is required'' (transmission v)
     @ required_enum bodyTypes ''bodyType'' ''Body type is required'' (bodyType v)
     @ required_string ''Engine details are required'' (engine v)
     @ required_string ''image is required'' (image_v v)
     @ required_enum conditions ''condition'' ''Condition is required'' (condition v)
     @ (case badge v of None \<Rightarrow> [] | Some x \<Rightarrow> in_enum badges ''badge'' x)
     @ dealer_errors (dealer v)
     @ in_enum statuses ''status'' (status v)"

text \<open>
  A request body is a JSON object; here it is a record with one optional field for each path
  of the schema and one for the identifier, each holding a value of the path's type. Values
  of another JSON type, which the validator library and the store would try to convert, are
  outside the model.
\<close>

record vehicle_input =
  in_oid :: "string option"
  in_make :: "string option"
  in_model :: "string option"
  in_year :: "rat option"
  in_price :: "rat option"
  in_originalPrice :: "rat option"
  in_mileage :: "rat option"
  in_fuelType :: "string option"
  in_transmission :: "string option"
  in_bodyType :: "string option"
  in_engine :: "string option"
  in_color :: "string option"
  in_image :: "string option"
  in_features :: "string list option"
  in_condition :: "string option"
  in_badge :: "string option"
  in_location :: "location option"
  in_dealer :: "string option"
  in_status :: "string option"
  in_views :: "rat option"
  in_isActive :: "bool option"
  in_createdAt :: "int option"

definition on_path :: "bool \<Rightarrow> string \<Rightarrow> 'a option \<Rightarrow> ('a \<Rightarrow> string list) \<Rightarrow> string list" where
  \<comment> \<open>the validators of one path of an input: an absent value fails when the path is
      required and the whole document is validated, a present one runs the path's checks\<close>
  "on_path req m x chk = (case x of None \<Rightarrow> if req then [m] else [] | Some a \<Rightarrow> chk a)"

definition input_errors :: "platform \<Rightarrow> bool \<Rightarrow> vehicle_input \<Rightarrow> string list" where
  \<comment> \<open>\<open>whole\<close> is true for a new document (every required path is checked) and false for
      an update with \<^verbatim>\<open>runValidators\<close> (the paths of the update only). Strings of the
      paths declared \<^verbatim>\<open>trim\<close> are trimmed before they are checked.\<close>
  "input_errors P whole b =
     on_path whole ''Make is required'' (in_make b) (\<lambda>s. required_string ''Make is required'' (trim s))
     @ on_path whole ''Model is required'' (in_model b) (\<lambda>s. required_string ''Model is required'' (trim s))
     @ on_path whole ''Year is required'' (in_year b) (year_errors P)
     @ on_path whole ''Price is required'' (in_price b) (at_least 0 ''Price must be positive'')
     @ on_path False [] (in_originalPrice b) (at_least 0 ''Original price must be positive'')
     @ on_path whole ''Mileage is required'' (in_mileage b) (at_least 0 ''Mileage must be positive'')
     @ on_path whole ''Fuel type is required'' (in_fuelType b)
         (required_enum fuelTypes ''fuelType'' ''Fuel type is required'')
     @ on_path whole ''Transmission is required'' (in_transmission b)
         (required_enum transmissions ''transmission'' ''Transmission is required'')
     @ on_path whole ''Body type is required'' (in_bodyType b)
         (required_enum bodyTypes ''bodyType'' ''Body type is required'')
     @ on_path whole ''Engine details are required'' (in_engine b)
         (\<lambda>s. required_string ''Engine details are required'' (trim s))
     @ on_path whole ''image is required'' (in_image b) (\<lambda>s. required_string ''image is required'' (trim s))
     @ on_path whole ''Condition is required'' (in_condition b)
         (required_enum conditions ''condition'' ''Condition is required'')
     @ on_path False [] (in_badge b) (in_enum badges ''badge'')
     @ on_path whole ''Path dealer is required'' (in_dealer b) dealer_errors
     @ on_path False [] (in_status b) (in_enum statuses ''status'')
     @ on_path False [] (in_oid b)
         (\<lambda>i. if valid_oid i then [] else [''Cast to ObjectId failed for path _id''])"

definition or_else :: "'a option \<Rightarrow> 'a \<Rightarrow> 'a" where
  "or_else x d = (case x of None \<Rightarrow> d | Some a \<Rightarrow> a)"

definition new_vehicle :: "platform \<Rightarrow> vehicle_input \<Rightarrow> vehicle" where
  \<comment> \<open>the document of an input that passed validation: defaults for the absent paths, the
      driver's identifier unless the input brings one, creation time now unless the input
      brings one, and the update time equal to the creation time\<close>
  "new_vehicle P b =
     \<lparr>oid = or_else (in_oid b) (next_oid P),
      make_v = trim (or_else (in_make b) []),
      model = trim (or_else (in_model b) []),
      year = or_else (in_year b) 0,
      price = or_else (in_price b) 0,
      originalPrice = in_originalPrice b,
      mileage = or_else (in_mileage b) 0,
      fuelType = or_else (in_fuelType b) [],
      transmission = or_else (in_transmission b) [],
      bodyType = or_else (in_bodyType b) [],
      engine = trim (or_else (in_engine b) []),
      color = map_option trim (in_color b),
      image_v = trim (or_else (in_image b) []),
      features = map trim (or_else (in_features b) []),
      condition = or_else (in_condition b) [],
      badge = in_badge b,
      location = in_location b,
      dealer = or_else (in_dealer b) [],
      status = or_else (in_status b) ''available'',
      views = or_else (in_views b) 0,
      isActive = or_else (in_isActive b) True,
      createdAt = or_else (in_createdAt b) (now P),
      updatedAt = or_else (in_createdAt b) (now P)\<rparr>"

definition Vehicle_create :: "platform \<Rightarrow> db \<Rightarrow> vehicle_input \<Rightarrow> (exn + vehicle) \<times> db" where
  "Vehicle_create P d b =
     (let d1 = d\<lparr>oplog := oplog d @ [VehicleCreate]\<rparr>;
          errs = input_errors P True b;
          v = new_vehicle P b
      in if errs \<noteq> [] then (Inl (ValidationError errs), d1)
         else if list_ex (\<lambda>x. same_oid (oid x) (oid v)) (vehicles d)
         then (Inl (OtherError ''E11000 duplicate key''), d1)
         else (Inr v, d1\<lparr>vehicles := vehicles d @ [v]\<rparr>))"

definition Vehicle_save :: "platform \<Rightarrow> db \<Rightarrow> vehicle \<Rightarrow> (exn + vehicle) \<times> db" where
  \<comment> \<open>\<^verbatim>\<open>vehicle.save()\<close> on a loaded document: it is validated, stamped with the time of
      the update and written over the stored document of its identifier\<close>
  "Vehicle_save P d v =
     (let d1 = d\<lparr>oplog := oplog d @ [VehicleSave (oid v)]\<rparr>;
          errs = schema_errors P v;
          v1 = v\<lparr>updatedAt := now P\<rparr>
      in if errs \<noteq> [] then (Inl (ValidationError errs), d1)
         else (Inr v1, d1\<lparr>vehicles := replace_first (\<lambda>x. oid x = oid v) v1 (vehicles d)\<rparr>))"

definition apply_update :: "platform \<Rightarrow> vehicle_input \<Rightarrow> vehicle \<Rightarrow> vehicle" where
  \<comment> \<open>\<^verbatim>\<open>$set\<close> of the paths the body brings, and of the update time\<close>
  "apply_update P b v =
     \<lparr>oid = oid v,
      make_v = (case in_make b of None \<Rightarrow> make_v v | Some s \<Rightarrow> trim s),
      model = (case in_model b of None \<Rightarrow> model v | Some s \<Rightarrow> trim s),
      year = or_else (in_year b) (year v),
      price = or_else (in_price b) (price v),
      originalPrice = (case in_originalPrice b of None \<Rightarrow> originalPrice v | Some x \<Rightarrow> Some x),
      mileage = or_else (in_mileage b) (mileage v),
      fuelType = or_else (in_fuelType b) (fuelType v),
      transmission = or_else (in_transmission b) (transmission v),
      bodyType = or_else (in_bodyType b) (bodyType v),
      engine = (case in_engine b of None \<Rightarrow> engine v | Some s \<Rightarrow> trim s),
      color = (case in_color b of None \<Rightarrow> color v | Some s \<Rightarrow> Some (trim s)),
      image_v = (case in_image b of None \<Rightarrow> image_v v | Some s \<Rightarrow> trim s),
      features = (case in_features b of None \<Rightarrow> features v | Some fs \<Rightarrow> map trim fs),
      condition = or_else (in_condition b) (condition v),
      badge = (case in_badge b of None \<Rightarrow> badge v | Some x \<Rightarrow> Some x),
      location = (case in_location b of None \<Rightarrow> location v | Some x \<Rightarrow> Some x),
      dealer = or_else (in_dealer b) (dealer v),
      status = or_else (in_status b) (status v),
      views = or_else (in_views b) (views v),
      isActive = or_else (in_isActive b) (isActive v),
      createdAt = or_else (in_createdAt b) (createdAt v),
      updatedAt = now P\<rparr>"

definition Vehicle_findByIdAndUpdate ::
  "platform \<Rightarrow> db \<Rightarrow> string \<Rightarrow> vehicle_input \<Rightarrow> (exn + vehicle option) \<times> db" where
  \<comment> \<open>\<^verbatim>\<open>Vehicle.findByIdAndUpdate(id, body, {new: true, runValidators: true})\<close>; the
      identifier of a document cannot be changed\<close>
  "Vehicle_findByIdAndUpdate P d i b =
     (let d1 = d\<lparr>oplog := oplog d @ [VehicleFindByIdAndUpdate i]\<rparr>;
          errs = input_errors P False b
      in if \<not> valid_oid i then (Inl CastError, d1)
         else if errs \<noteq> [] then (Inl (ValidationError errs), d1)
         else case find (\<lambda>v. same_oid (oid v) i) (vehicles d) of
                None \<Rightarrow> (Inr None, d1)
              | Some v \<Rightarrow>
                  if (case in_oid b of None \<Rightarrow> False | Some j \<Rightarrow> \<not> same_oid j (oid v))
                  then (Inl (OtherError ''immutable field _id''), d1)
                  else (Inr (Some (apply_update P b v)),
                        d1\<lparr>vehicles := replace_first (\<lambda>x. same_oid (oid x) i) (apply_update P b v) (vehicles d)\<rparr>))"

definition Vehicle_findByIdAndDelete :: "db \<Rightarrow> string \<Rightarrow> (exn + vehicle option) \<times> db" where
  "Vehicle_findByIdAndDelete d i =
     (let d1 = d\<lparr>oplog := oplog d @ [VehicleFindByIdAndDelete i]\<rparr>
      in if \<not> valid_oid i then (Inl CastError, d1)
         else (Inr (find (\<lambda>v. same_oid (oid v) i) (vehicles d)),
               d1\<lparr>vehicles := remove_first (\<lambda>x. same_oid (oid x) i) (vehicles d)\<rparr>))"

section \<open>GET, POST, PUT and DELETE of one vehicle\<close>

text \<open>
  The middleware \<^verbatim>\<open>protect\<close> and \<^verbatim>\<open>authorize\<close> is not among the sources. A protected
  handler is modelled from the point where the middleware has let the request through and
  set \<^verbatim>\<open>req.user\<close>, of which the handlers read the identifier and the role.
\<close>

record user =
  user_id :: string
  role :: string

definition get_vehicle_body :: "platform \<Rightarrow> db \<Rightarrow> string \<Rightarrow> (exn + response) \<times> db" where
  \<comment> \<open>\<^verbatim>\<open>vehicle.views += 1\<close> is an addition of doubles; the sum of two finite numbers of
      which one is 1 is finite\<close>
  "get_vehicle_body P d i =
     (case Vehicle_findById d (Some i) of
        (Inl e, d1) \<Rightarrow> (Inl e, d1)
      | (Inr None, d1) \<Rightarrow> (Inr (Failure 404 ''Vehicle not found'' None), d1)
      | (Inr (Some v), d1) \<Rightarrow>
          (case Vehicle_save P d1 (v\<lparr>views := round_double (views v + 1)\<rparr>) of
             (Inl e, d2) \<Rightarrow> (Inl e, d2)
           | (Inr v2, d2) \<Rightarrow> (Inr (Single (populate d2 v2)), d2)))"

definition get_vehicle :: "platform \<Rightarrow> db \<Rightarrow> string \<Rightarrow> response \<times> db" where
  "get_vehicle P d i = catch ''Server error'' (get_vehicle_body P d i)"

definition check_body :: "string \<Rightarrow> bool \<Rightarrow> string \<Rightarrow> string \<Rightarrow> verror list" where
  \<comment> \<open>\<^verbatim>\<open>body(path).<check>.withMessage(m)\<close> on a string, with the value as the error
      shows it\<close>
  "check_body path ok m shown =
     (if ok then [] else [\<lparr>err_path = path, err_msg = m, err_value = JStr shown\<rparr>])"

definition check_number :: "string \<Rightarrow> (rat \<Rightarrow> bool) \<Rightarrow> string \<Rightarrow> rat option \<Rightarrow> verror list" where
  \<comment> \<open>a check on a number of the body: an absent field fails, and the error shows the
      submitted number, or nothing for an absent field\<close>
  "check_number path ok m x =
     (case x of
        None \<Rightarrow> [\<lparr>err_path = path, err_msg = m, err_value = JUndefined\<rparr>]
      | Some y \<Rightarrow> if ok y then [] else [\<lparr>err_path = path, err_msg = m, err_value = JNum (Num y)\<rparr>])"

definition create_validation :: "platform \<Rightarrow> vehicle_input \<Rightarrow> verror list" where
  \<comment> \<open>the ten checks of the create route; an absent field fails each of them, an absent
      string being checked as the empty string\<close>
  "create_validation P b =
     check_body ''make'' (trim (or_else (in_make b) []) \<noteq> []) ''Make is required'' (trim (or_else (in_make b) []))
     @ check_body ''model'' (trim (or_else (in_model b) []) \<noteq> []) ''Model is required'' (trim (or_else (in_model b) []))
     @ check_number ''year'' (\<lambda>y. is_integer y \<and> 1900 \<le> y \<and> y \<le> rat_of_int (startYear P + 1))
         ''Invalid year'' (in_year b)
     @ check_number ''price'' (\<lambda>x. 0 \<le> x) ''Price must be positive'' (in_price b)
     @ check_number ''mileage'' (\<lambda>x. 0 \<le> x) ''Mileage must be positive'' (in_mileage b)
     @ check_body ''image'' (trim (or_else (in_image b) []) \<noteq> []) ''Image is required'' (trim (or_else (in_image b) []))
     @ check_body ''fuelType'' (or_else (in_fuelType b) [] \<in> set fuelTypes) ''Invalid fuel type'' (or_else (in_fuelType b) [])
     @ check_body ''transmission'' (or_else (in_transmission b) [] \<in> set transmissions) ''Invalid transmission'' (or_else (in_transmission b) [])
     @ check_body ''bodyType'' (or_else (in_bodyType b) [] \<in> set bodyTypes) ''Invalid body type'' (or_else (in_bodyType b) [])
     @ check_body ''condition'' (or_else (in_condition b) [] \<in> set conditions) ''Invalid condition'' (or_else (in_condition b) [])"

definition sanitized :: "vehicle_input \<Rightarrow> vehicle_input" where
  \<comment> \<open>the sanitizer \<^verbatim>\<open>trim()\<close> of the chains writes the trimmed string back into the body\<close>
  "sanitized b =
     b\<lparr>in_make := Some (trim (or_else (in_make b) [])),
       in_model := Some (trim (or_else (in_model b) [])),
       in_image := Some (trim (or_else (in_image b) []))\<rparr>"

definition vehicleData :: "vehicle_input \<Rightarrow> user \<Rightarrow> vehicle_input" where
  \<comment> \<open>\<^verbatim>\<open>{...req.body, dealer: req.user.id}\<close>\<close>
  "vehicleData b u = b\<lparr>in_dealer := Some (user_id u)\<rparr>"

definition create_vehicle_body :: "platform \<Rightarrow> db \<Rightarrow> user \<Rightarrow> vehicle_input \<Rightarrow> (exn + response) \<times> db" where
  "create_vehicle_body P d u b =
     (let errors = create_validation P b in
      if errors \<noteq> [] then (Inr (Failure 400 ''Validation failed'' (Some (Fields errors))), d)
      else
        case Vehicle_create P d (vehicleData (sanitized b) u) of
          (Inl e, d1) \<Rightarrow> (Inl e, d1)
        | (Inr v, d1) \<Rightarrow>
            (Inr (Success 201 ''Vehicle created successfully'' (Some (VehicleData (Some (populate d1 v))))), d1))"

definition create_vehicle :: "platform \<Rightarrow> db \<Rightarrow> user \<Rightarrow> vehicle_input \<Rightarrow> response \<times> db" where
  "create_vehicle P d u b = catch ''Server error'' (create_vehicle_body P d u b)"

definition update_vehicle_body ::
  "platform \<Rightarrow> db \<Rightarrow> user \<Rightarrow> string \<Rightarrow> vehicle_input \<Rightarrow> (exn + response) \<times> db" where
  "update_vehicle_body P d u i b =
     (case Vehicle_findById d (Some i) of
        (Inl e, d1) \<Rightarrow> (Inl e, d1)
      | (Inr None, d1) \<Rightarrow> (Inr (Failure 404 ''Vehicle not found'' None), d1)
      | (Inr (Some v), d1) \<Rightarrow>
          if dealer v \<noteq> user_id u \<and> role u \<noteq> ''admin''
          then (Inr (Failure 403 ''Not authorized to update this vehicle'' None), d1)
          else
            (case Vehicle_findByIdAndUpdate P d1 i b of
               (Inl e, d2) \<Rightarrow> (Inl e, d2)
             | (Inr w, d2) \<Rightarrow>
                 (Inr (Success 200 ''Vehicle updated successfully''
                         (Some (VehicleData (map_option (populate d2) w)))), d2)))"

definition update_vehicle :: "platform \<Rightarrow> db \<Rightarrow> user \<Rightarrow> string \<Rightarrow> vehicle_input \<Rightarrow> response \<times> db" where
  "update_vehicle P d u i b = catch ''Server error'' (update_vehicle_body P d u i b)"

definition delete_vehicle_body :: "db \<Rightarrow> user \<Rightarrow> string \<Rightarrow> (exn + response) \<times> db" where
  "delete_vehicle_body d u i =
     (case Vehicle_findById d (Some i) of
        (Inl e, d1) \<Rightarrow> (Inl e, d1)
      | (Inr None, d1) \<Rightarrow> (Inr (Failure 404 ''Vehicle not found'' None), d1)
      | (Inr (Some v), d1) \<Rightarrow>
          if dealer v \<noteq> user_id u \<and> role u \<noteq> ''admin''
          then (Inr (Failure 403 ''Not authorized to delete this vehicle'' None), d1)
          else
            (case Vehicle_findByIdAndDelete d1 i of
               (Inl e, d2) \<Rightarrow> (Inl e, d2)
             | (Inr w, d2) \<Rightarrow> (Inr (Success 200 ''Vehicle deleted successfully'' None), d2)))"

definition delete_vehicle :: "db \<Rightarrow> user \<Rightarrow> string \<Rightarrow> response \<times> db" where
  "delete_vehicle d u i = catch ''Server error'' (delete_vehicle_body d u i)"

section \<open>The contact routes\<close>

text \<open>
  The body of a contact submission, typed like the vehicle input: the fields the form sends,
  and the paths of the inquiry a body could bring besides.
\<close>

record contact_input =
  ci_name :: "string option"
  ci_email :: "string option"
  ci_phone :: "string option"
  ci_subject :: "string option"
  ci_message :: "string option"
  ci_inquiryType :: "string option"
  ci_vehicleId :: "string option"
  ci_dealerId :: "string option"
  ci_isRead :: "bool option"
  ci_status :: "string option"

definition phone_ok :: "string \<Rightarrow> bool" where
  \<comment> \<open>\<^verbatim>\<open>/^[\+]?[1-9][\d]{0,15}$/\<close>\<close>
  "phone_ok s =
     (case (case s of [] \<Rightarrow> [] | c # cs \<Rightarrow> if c = CHR ''+'' then cs else s) of
        [] \<Rightarrow> False
      | c # cs \<Rightarrow> is_digit c \<and> c \<noteq> CHR ''0'' \<and> list_all is_digit cs \<and> length cs \<le> 15)"

definition contact_validation :: "platform \<Rightarrow> contact_input \<Rightarrow> verror list" where
  \<comment> \<open>an absent field is checked as the empty string; the phone is optional. Lengths are
      counted in characters of the model.\<close>
  "contact_validation P b =
     check_body ''name'' (2 \<le> length (trim (or_else (ci_name b) []))) ''Name must be at least 2 characters''
        (trim (or_else (ci_name b) []))
     @ check_body ''email'' (is_email P (or_else (ci_email b) [])) ''Please enter a valid email''
        (or_else (ci_email b) [])
     @ check_body ''subject'' (5 \<le> length (trim (or_else (ci_subject b) []))) ''Subject must be at least 5 characters''
        (trim (or_else (ci_subject b) []))
     @ check_body ''message'' (10 \<le> length (trim (or_else (ci_message b) []))) ''Message must be at least 10 characters''
        (trim (or_else (ci_message b) []))
     @ (case ci_phone b of
          None \<Rightarrow> []
        | Some s \<Rightarrow> check_body ''phone'' (phone_ok s) ''Please enter a valid phone number'' s)"

definition contact_sanitized :: "platform \<Rightarrow> contact_input \<Rightarrow> contact_input" where
  "contact_sanitized P b =
     b\<lparr>ci_name := Some (trim (or_else (ci_name b) [])),
       ci_email := Some (normalize_email P (or_else (ci_email b) [])),
       ci_subject := Some (trim (or_else (ci_subject b) [])),
       ci_message := Some (trim (or_else (ci_message b) []))\<rparr>"

definition new_contact :: "platform \<Rightarrow> contact_input \<Rightarrow> contact" where
  "new_contact P b =
     \<lparr>c_oid = next_oid P,
      c_name = or_else (ci_name b) [],
      c_email = or_else (ci_email b) [],
      c_phone = ci_phone b,
      c_subject = or_else (ci_subject b) [],
      c_message = or_else (ci_message b) [],
      c_inquiryType = ci_inquiryType b,
      c_vehicleId = ci_vehicleId b,
      c_dealerId = or_else (ci_dealerId b) [],
      c_isRead = or_else (ci_isRead b) False,
      c_status = or_else (ci_status b) ''new''\<rparr>"

definition Contact_create :: "platform \<Rightarrow> db \<Rightarrow> contact_input \<Rightarrow> (exn + contact) \<times> db" where
  "Contact_create P d b =
     (let d1 = d\<lparr>oplog := oplog d @ [ContactCreate]\<rparr>;
          c = new_contact P b
      in if contact_errors P c \<noteq> [] then (Inl (ValidationError (contact_errors P c)), d1)
         else (Inr c, d1\<lparr>contacts := contacts d @ [c]\<rparr>))"

definition submit_contact_body :: "platform \<Rightarrow> db \<Rightarrow> contact_input \<Rightarrow> (exn + response) \<times> db" where
  \<comment> \<open>the lookup result is dereferenced unchecked: \<^verbatim>\<open>vehicle.dealer\<close> on \<^verbatim>\<open>null\<close> throws
      a \<^verbatim>\<open>TypeError\<close>\<close>
  "submit_contact_body P d b =
     (let errors = contact_validation P b in
      if errors \<noteq> [] then (Inr (Failure 400 ''Validation failed'' (Some (Fields errors))), d)
      else
        case Vehicle_findById d (ci_vehicleId b) of
          (Inl e, d1) \<Rightarrow> (Inl e, d1)
        | (Inr None, d1) \<Rightarrow> (Inl TypeError, d1)
        | (Inr (Some v), d1) \<Rightarrow>
            (case Contact_create P d1 ((contact_sanitized P b)\<lparr>ci_dealerId := Some (dealer v)\<rparr>) of
               (Inl e, d2) \<Rightarrow> (Inl e, d2)
             | (Inr c, d2) \<Rightarrow>
                 (Inr (Success 201
                         ''Your message has been sent successfully. We will get back to you soon.''
                         (Some (ContactData c))), d2)))"

definition submit_contact :: "platform \<Rightarrow> db \<Rightarrow> contact_input \<Rightarrow> response \<times> db" where
  "submit_contact P d b =
     catch ''Server error. Please try again later.'' (submit_contact_body P d b)"

definition contact_statuses :: "string list" where
  "contact_statuses = [''new'', ''in_progress'', ''resolved'', ''closed'']"

definition status_validation :: "string option \<Rightarrow> verror list" where
  "status_validation st =
     check_body ''status'' (or_else st [] \<in> set contact_statuses) ''Invalid status'' (or_else st [])"

definition Contact_findByIdAndUpdate :: "db \<Rightarrow> string \<Rightarrow> string \<Rightarrow> (exn + contact option) \<times> db" where
  \<comment> \<open>\<^verbatim>\<open>Contact.findByIdAndUpdate(id, {status: s, isRead: true}, {new: true})\<close>\<close>
  "Contact_findByIdAndUpdate d i s =
     (let d1 = d\<lparr>oplog := oplog d @ [ContactFindByIdAndUpdate i]\<rparr>
      in if \<not> valid_oid i then (Inl CastError, d1)
         else case find (\<lambda>c. same_oid (c_oid c) i) (contacts d) of
                None \<Rightarrow> (Inr None, d1)
              | Some c \<Rightarrow>
                  (Inr (Some (c\<lparr>c_status := s, c_isRead := True\<rparr>)),
                   d1\<lparr>contacts := replace_first (\<lambda>x. same_oid (c_oid x) i)
                                     (c\<lparr>c_status := s, c_isRead := True\<rparr>) (contacts d)\<rparr>))"

definition set_contact_status_body :: "db \<Rightarrow> string \<Rightarrow> string option \<Rightarrow> (exn + response) \<times> db" where
  "set_contact_status_body d i st =
     (let errors = status_validation st in
      if errors \<noteq> [] then (Inr (Failure 400 ''Validation failed'' (Some (Fields errors))), d)
      else
        case Contact_findByIdAndUpdate d i (or_else st []) of
          (Inl e, d1) \<Rightarrow> (Inl e, d1)
        | (Inr None, d1) \<Rightarrow> (Inr (Failure 404 ''Contact not found'' None), d1)
        | (Inr (Some c), d1) \<Rightarrow> (Inr (Success 200 ''Contact status updated'' (Some (ContactData c))), d1))"

definition set_contact_status :: "db \<Rightarrow> string \<Rightarrow> string option \<Rightarrow> response \<times> db" where
  "set_contact_status d i st = catch ''Server error'' (set_contact_status_body d i st)"

section \<open>The terminal error handler\<close>

text \<open>
  The handler of \<^verbatim>\<open>server.js\<close> that Express calls with an error no route has answered.
  The exceptions of the model are told apart by their names and carry no message text, so
  the error's status and message are arguments.
\<close>

definition error_handler :: "exn \<Rightarrow> nat option \<Rightarrow> string \<Rightarrow> response" where
  \<comment> \<open>the error by its name, with its \<^verbatim>\<open>status\<close> member, if it has one, and its message; a
      status of 0 and an empty message are falsy\<close>
  "error_handler err st msg =
     (case err of
        ValidationError ms \<Rightarrow> Failure 400 ''Validation Error'' (Some (Messages ms))
      | CastError \<Rightarrow> Failure 400 ''Invalid ID format'' None
      | _ \<Rightarrow>
          Failure (case st of None \<Rightarrow> 500 | Some n \<Rightarrow> if n = 0 then 500 else n)
            (if msg = [] then ''Internal Server Error'' else msg) None)"

section \<open>Notions the properties are stated with\<close>

text \<open>A filter is public when it pins the two visibility paths; \<open>op_filter\<close> is the filter
  a logged call carried to the store.\<close>

definition public_only :: "filter \<Rightarrow> bool" where
  "public_only f =
     (map_of f ''isActive'' = Some (Eq (JBool True)) \<and> map_of f ''status'' = Some (Eq (JStr ''available'')))"

fun op_filter :: "store_op \<Rightarrow> filter option" where
  "op_filter (VehicleFind f s a b) = Some f"
| "op_filter (VehicleCount f) = Some f"
| "op_filter _ = None"

text \<open>A page or a limit is malformed when it is not an integer literal (decimal digits
  after an optional sign) or the integer it denotes is out of range. A price is malformed
  when it has not the form of a decimal literal, or when the handler's own reading of it,
  with \<^verbatim>\<open>parseFloat\<close>, is no number or a negative one. \<open>field_error\<close> is the entry of the
  error list for a field.\<close>

definition bad_int :: "int \<Rightarrow> int option \<Rightarrow> string \<Rightarrow> bool" where
  "bad_int lo hi s =
     (\<not> int_shaped s \<or> int_value s < lo \<or> (case hi of None \<Rightarrow> False | Some h \<Rightarrow> h < int_value s))"

definition bad_price :: "string \<Rightarrow> bool" where
  "bad_price s = (\<not> float_shaped s \<or> parseFloat s = NaN \<or> js_less (parseFloat s) (Num 0))"

definition malformed :: "query \<Rightarrow> bool" where
  "malformed q =
     ((case q ''page'' of None \<Rightarrow> False | Some s \<Rightarrow> bad_int 1 None s)
      \<or> (case q ''limit'' of None \<Rightarrow> False | Some s \<Rightarrow> bad_int 1 (Some 50) s)
      \<or> (case q ''minPrice'' of None \<Rightarrow> False | Some s \<Rightarrow> bad_price s)
      \<or> (case q ''maxPrice'' of None \<Rightarrow> False | Some s \<Rightarrow> bad_price s))"

definition field_error :: "string \<Rightarrow> string \<Rightarrow> string \<Rightarrow> verror" where
  "field_error k m s = \<lparr>err_path = k, err_msg = m, err_value = JStr s\<rparr>"




text \<open>The page and the limit a request asks for: the integers its parameters denote, 1
  and 10 when absent. A request is in the safe range of a store when the product of the two
  is at most \<open>2 ^ 53\<close> and the store holds fewer than \<open>2 ^ 53\<close> vehicles: then the page,
  the number of vehicles to skip and every count are doubles.\<close>

definition req_page :: "query \<Rightarrow> int" where
  "req_page q = (case q ''page'' of None \<Rightarrow> 1 | Some s \<Rightarrow> int_value s)"

definition req_limit :: "query \<Rightarrow> int" where
  "req_limit q = (case q ''limit'' of None \<Rightarrow> 10 | Some s \<Rightarrow> int_value s)"


text \<open>The view counter of a vehicle has room for \<open>n\<close> more views when it is a whole
  number and stays within \<open>2 ^ 53\<close> after them.\<close>

definition counter_room :: "nat \<Rightarrow> vehicle \<Rightarrow> bool" where
  "counter_room n v = (is_integer (views v) \<and> \<bar>views v\<bar> + rat_of_nat n \<le> 2 ^ 53)"


text \<open>The vehicle and the inquiry an identifier resolves to, if any; the \<^verbatim>\<open>success\<close>
  member of a response body, where it has one.\<close>

definition stored :: "db \<Rightarrow> string \<Rightarrow> vehicle option" where
  "stored d i = (if valid_oid i then find (\<lambda>v. same_oid (oid v) i) (vehicles d) else None)"

definition stored_contact :: "db \<Rightarrow> string \<Rightarrow> contact option" where
  "stored_contact d i = (if valid_oid i then find (\<lambda>c. same_oid (c_oid c) i) (contacts d) else None)"

definition success_flag :: "response \<Rightarrow> bool option" where
  "success_flag r =
     (case r of Failure n m es \<Rightarrow> Some False | Success n m p \<Rightarrow> Some True
      | Listing vs pg \<Rightarrow> None | Single v \<Rightarrow> None)"

section \<open>Example data\<close>

text \<open>A platform whose engine accepts nothing outside the fragment and whose store
  keeps the natural order and refuses a skip or a limit that is no safe integer, three
  vehicles (one of them sold) and a store holding them; a vehicle whose view counter has
  reached \<open>2 ^ 53\<close> and a store holding it.\<close>

definition P0 :: platform where
  "P0 = \<lparr>re_valid = (\<lambda>p. False), re_search = (\<lambda>p s. False), collate = (\<lambda>k a b. True),
     other_window = (\<lambda>s l. Inl (OtherError ''window'')), now = 2000, startYear = 2025,
     next_oid = ''64b000000000000000000009'',
     is_email = (\<lambda>s. CHR ''@'' \<in> set s), normalize_email = (\<lambda>s. s),
     contact_errors = (\<lambda>c. [])\<rparr>"

definition corolla :: vehicle where
  "corolla = \<lparr>oid = ''64b000000000000000000001'', make_v = ''Toyota'', model = ''Corolla'',
     year = 2020, price = 15000, originalPrice = None, mileage = 42000, fuelType = ''Petrol'',
     transmission = ''Manual'', bodyType = ''Sedan'', engine = ''1.8L'', color = None,
     image_v = ''corolla.jpg'', features = [], condition = ''Used'', badge = None,
     location = None, dealer = ''64a000000000000000000001'', status = ''available'',
     views = 0, isActive = True, createdAt = 1000, updatedAt = 1000\<rparr>"

definition civic :: vehicle where
  "civic = corolla\<lparr>oid := ''64b000000000000000000002'', make_v := ''Honda'', model := ''Civic'',
     status := ''sold''\<rparr>"

definition accord :: vehicle where
  "accord = corolla\<lparr>oid := ''64b000000000000000000003'', make_v := ''Honda'', model := ''Accord'',
     dealer := ''64a000000000000000000002''\<rparr>"

definition db0 :: db where
  "db0 = \<lparr>vehicles = [corolla, civic, accord], users = Map.empty, contacts = [], oplog = []\<rparr>"

definition veteran :: vehicle where
  "veteran = corolla\<lparr>views := 9007199254740992\<rparr>"

definition db2 :: db where
  "db2 = \<lparr>vehicles = [veteran], users = Map.empty, contacts = [], oplog = []\<rparr>"

text \<open>Listing requests: one that tries to ask for inactive and sold vehicles, one for the
  second page of pages of one, one with three malformed parameters, two with a make, two
  that pass validation with a make that is no regular expression and a year that is no
  number, one for the page \<open>2 ^ 53 + 1\<close>, and one with a negative minimum price too small
  for a double.\<close>

definition q_pub :: query where
  "q_pub = [''isActive'' \<mapsto> ''false'', ''status'' \<mapsto> ''sold'', ''sortBy'' \<mapsto> ''price'']"


definition q_bad :: query where
  "q_bad = [''page'' \<mapsto> ''0'', ''limit'' \<mapsto> ''51'', ''minPrice'' \<mapsto> ''-5'']"






definition q_tiny :: query where
  "q_tiny = [''minPrice'' \<mapsto> ''-1e-400'']"

text \<open>A dealer who owns the third example vehicle only, an update that changes
  nothing, and a create request whose body names the first dealer as the owner.\<close>

definition buyer :: user where
  "buyer = \<lparr>user_id = ''64a000000000000000000002'', role = ''dealer''\<rparr>"

definition no_change :: vehicle_input where
  "no_change = \<lparr>in_oid = None, in_make = None, in_model = None, in_year = None, in_price = None,
     in_originalPrice = None, in_mileage = None, in_fuelType = None, in_transmission = None,
     in_bodyType = None, in_engine = None, in_color = None, in_image = None, in_features = None,
     in_condition = None, in_badge = None, in_location = None, in_dealer = None, in_status = None,
     in_views = None, in_isActive = None, in_createdAt = None\<rparr>"

definition listing_form :: vehicle_input where
  "listing_form = no_change\<lparr>in_make := Some ''Mazda'', in_model := Some '' MX-5 '',
     in_year := Some 2019, in_price := Some 21000, in_mileage := Some 30000,
     in_fuelType := Some ''Petrol'', in_transmission := Some ''Manual'',
     in_bodyType := Some ''Convertible'', in_engine := Some ''2.0L'',
     in_image := Some ''mx5.jpg'', in_condition := Some ''Used'',
     in_dealer := Some ''64a000000000000000000001''\<rparr>"

text \<open>A closed inquiry about the first example vehicle, a store holding it, and a
  submission that passes validation and names a vehicle the store does not hold.\<close>

definition inquiry :: contact where
  "inquiry = \<lparr>c_oid = ''64c000000000000000000001'', c_name = ''Ann'', c_email = ''ann@example.org'',
     c_phone = None, c_subject = ''Corolla'', c_message = ''Is it still on sale?'',
     c_inquiryType = None, c_vehicleId = Some ''64b000000000000000000001'',
     c_dealerId = ''64a000000000000000000001'', c_isRead = False, c_status = ''closed''\<rparr>"

definition db1 :: db where
  "db1 = db0\<lparr>contacts := [inquiry]\<rparr>"

definition inquiry_form :: contact_input where
  "inquiry_form = \<lparr>ci_name = Some ''Ann'', ci_email = Some ''ann@example.org'', ci_phone = None,
     ci_subject = Some ''Corolla'', ci_message = Some ''Is it still on sale?'',
     ci_inquiryType = None, ci_vehicleId = Some ''64b0000000000000000000ff'',
     ci_dealerId = None, ci_isRead = None, ci_status = None\<rparr>"

section \<open>Properties of rounding\<close>

text \<open>The exponent found by \<open>floor_log2\<close> is the one of the binade of its argument.\<close>

lemma pow_bitlen: "0 < a \<Longrightarrow> (2::rat) powi (bitlen a - 1) \<le> rat_of_int a \<and> rat_of_int a < 2 powi (bitlen a)"
proof -
  assume a: "0 < a"
  from bitlen_bounds[OF a] have b: "2 ^ nat (bitlen a - 1) \<le> a" "a < 2 ^ nat (bitlen a)" by auto
  have ge1: "1 \<le> bitlen a" using a by (auto simp: bitlen_alt_def)
  have "rat_of_int (2 ^ nat (bitlen a - 1)) \<le> rat_of_int a" using b(1) by (simp only: of_int_le_iff)
  moreover have "rat_of_int a < rat_of_int (2 ^ nat (bitlen a))" using b(2) by (simp only: of_int_less_iff)
  moreover have "(2::rat) powi (bitlen a - 1) = rat_of_int (2 ^ nat (bitlen a - 1))"
    using ge1 by (simp add: power_int_def)
  moreover have "(2::rat) powi (bitlen a) = rat_of_int (2 ^ nat (bitlen a))"
    using ge1 by (simp add: power_int_def)
  ultimately show ?thesis by simp
qed

lemma floor_log2_bounds:
  assumes x: "0 < x"
  shows "2 powi (floor_log2 x) \<le> x \<and> x < 2 powi (floor_log2 x + 1)"
proof -
  obtain a b where q: "quotient_of x = (a, b)" by (cases "quotient_of x")
  have b: "0 < b" using quotient_of_denom_pos[OF q] .
  have xe: "x = rat_of_int a / rat_of_int b" using quotient_of_div[OF q] .
  have a: "0 < a" using x b xe by (simp add: zero_less_divide_iff)
  define k where "k = bitlen a - bitlen b"
  from pow_bitlen[OF a] have A: "(2::rat) powi (bitlen a - 1) \<le> rat_of_int a" "rat_of_int a < 2 powi (bitlen a)" by auto
  from pow_bitlen[OF b] have B: "(2::rat) powi (bitlen b - 1) \<le> rat_of_int b" "rat_of_int b < 2 powi (bitlen b)" by auto
  have bp: "0 < rat_of_int b" using b by simp
  have up: "x < 2 powi (k + 1)"
  proof -
    have "rat_of_int a < 2 powi (bitlen a)" by (rule A(2))
    also have "\<dots> = 2 powi (k + 1) * 2 powi (bitlen b - 1)"
      by (simp add: k_def flip: power_int_add)
    also have "\<dots> \<le> 2 powi (k + 1) * rat_of_int b"
      using B(1) by (intro mult_left_mono) simp_all
    finally show ?thesis using bp by (simp add: xe pos_divide_less_eq)
  qed
  have lo: "2 powi (k - 1) \<le> x"
  proof -
    have "2 powi (k - 1) * rat_of_int b \<le> 2 powi (k - 1) * 2 powi (bitlen b)"
      using B(2) by (intro mult_left_mono) simp_all
    also have "\<dots> = 2 powi (bitlen a - 1)"
      by (simp add: k_def flip: power_int_add)
    also have "\<dots> \<le> rat_of_int a" by (rule A(1))
    finally show ?thesis using bp by (simp add: xe pos_le_divide_eq)
  qed
  have fl: "floor_log2 x = (if 2 powi k \<le> x then k else k - 1)"
    by (simp add: floor_log2_def q k_def Let_def)
  show ?thesis
  proof (cases "2 powi k \<le> x")
    case True
    then show ?thesis using up fl by simp
  next
    case False
    then show ?thesis using lo fl by simp
  qed
qed

lemma pow2_pos: "(2::rat) powi k \<le> x \<Longrightarrow> 0 < x"
proof -
  assume "(2::rat) powi k \<le> x"
  moreover have "0 < (2::rat) powi k" by simp
  ultimately show ?thesis by (rule less_le_trans[rotated])
qed

lemma pow2_less: "(2::rat) powi a < 2 powi b \<Longrightarrow> a < b"
proof (rule ccontr)
  assume l: "(2::rat) powi a < 2 powi b" and "\<not> a < b"
  then have "b \<le> a" by simp
  then have "(2::rat) powi b \<le> 2 powi a" by (rule power_int_increasing) simp
  with l show False by simp
qed

lemma floor_log2_unique:
  assumes "2 powi k \<le> x" and "x < 2 powi (k + 1)"
  shows "floor_log2 x = k"
proof -
  have x: "0 < x" using assms(1) by (rule pow2_pos)
  from floor_log2_bounds[OF x] have b: "2 powi (floor_log2 x) \<le> x" "x < 2 powi (floor_log2 x + 1)" by auto
  have "(2::rat) powi k < 2 powi (floor_log2 x + 1)" using assms(1) b(2) by simp
  then have 1: "k < floor_log2 x + 1" by (rule pow2_less)
  have "(2::rat) powi (floor_log2 x) < 2 powi (k + 1)" using assms(2) b(1) by simp
  then have 2: "floor_log2 x < k + 1" by (rule pow2_less)
  from 1 2 show ?thesis by simp
qed

lemma round_even_int: "round_even (rat_of_int n) = n"
  by (simp add: round_even_def)

lemma round_even_error: "\<bar>rat_of_int (round_even q) - q\<bar> \<le> 1 / 2"
proof -
  have "rat_of_int \<lfloor>q\<rfloor> \<le> q" "q < rat_of_int \<lfloor>q\<rfloor> + 1" by linarith+
  then show ?thesis by (auto simp: round_even_def Let_def)
qed



lemma floor_log2_le: "0 < x \<Longrightarrow> x < 2 powi k \<Longrightarrow> floor_log2 x < k"
proof -
  assume x: "0 < x" and k: "x < 2 powi k"
  from floor_log2_bounds[OF x] have "(2::rat) powi (floor_log2 x) < 2 powi k" using k by simp
  then show ?thesis by (rule pow2_less)
qed

lemma floor_log2_ge: "2 powi k \<le> x \<Longrightarrow> k \<le> floor_log2 x"
proof -
  assume k: "2 powi k \<le> x"
  have x: "0 < x" using k by (rule pow2_pos)
  from floor_log2_bounds[OF x] have "(2::rat) powi k < 2 powi (floor_log2 x + 1)" using k by simp
  then have "k < floor_log2 x + 1" by (rule pow2_less)
  then show ?thesis by simp
qed

lemma round_double_pos:
  "0 < x \<Longrightarrow> round_double x =
     rat_of_int (round_even (x / 2 powi (max (floor_log2 x - 52) (- 1074)))) * 2 powi (max (floor_log2 x - 52) (- 1074))"
  by (simp add: round_double_def Let_def)

lemma round_double_minus: "round_double (- x) = - round_double x"
  by (simp add: round_double_def Let_def sgn_minus)

lemma round_even_nonneg: "0 \<le> q \<Longrightarrow> 0 \<le> round_even q"
  by (auto simp: round_even_def Let_def)

lemma round_double_nonneg: "0 \<le> x \<Longrightarrow> 0 \<le> round_double x"
proof (cases "x = 0")
  case True then show ?thesis by (simp add: round_double_def)
next
  case False
  assume "0 \<le> x"
  then have x: "0 < x" using False by simp
  have "0 \<le> x / 2 powi (max (floor_log2 x - 52) (- 1074))" using x by simp
  then show ?thesis using x round_even_nonneg by (simp add: round_double_pos)
qed

lemma round_double_nonpos: "x \<le> 0 \<Longrightarrow> round_double x \<le> 0"
  using round_double_nonneg[of "- x"] by (simp add: round_double_minus)

text \<open>the error of rounding\<close>

lemma round_double_error:
  assumes x: "0 < x"
  shows "\<bar>round_double x - x\<bar> \<le> 2 powi (max (floor_log2 x - 52) (- 1074)) / 2"
proof -
  define e where "e = max (floor_log2 x - 52) (- 1074)"
  define p where "p = (2::rat) powi e"
  have p: "0 < p" by (simp add: p_def)
  have "round_double x - x = (rat_of_int (round_even (x / p)) - x / p) * p"
    using p by (simp add: round_double_pos[OF x] e_def[symmetric] p_def[symmetric] algebra_simps)
  then have "\<bar>round_double x - x\<bar> = \<bar>rat_of_int (round_even (x / p)) - x / p\<bar> * p"
    using p by (simp add: abs_mult)
  also have "\<dots> \<le> (1 / 2) * p"
    using round_even_error[of "x / p"] p by (intro mult_right_mono) simp_all
  finally show ?thesis by (simp add: p_def e_def)
qed

lemma round_double_relative:
  assumes x: "2 powi (- 1022) \<le> x"
  shows "\<bar>round_double x - x\<bar> \<le> x / 2 ^ 53"
proof -
  have x0: "0 < x" using x by (rule pow2_pos)
  have f: "- 1022 \<le> floor_log2 x" using x by (rule floor_log2_ge)
  then have e: "max (floor_log2 x - 52) (- 1074) = floor_log2 x - 52" by simp
  have "\<bar>round_double x - x\<bar> \<le> 2 powi (floor_log2 x - 52) / 2"
    using round_double_error[OF x0] by (simp add: e)
  also have "\<dots> = 2 powi (floor_log2 x) / 2 ^ 53"
    by (simp add: power_int_diff)
  also have "\<dots> \<le> x / 2 ^ 53"
    using floor_log2_bounds[OF x0] by (simp add: divide_right_mono)
  finally show ?thesis .
qed

text \<open>integers up to \<open>2 ^ 53\<close> are doubles\<close>

lemma round_double_nat:
  assumes n: "n \<le> 2 ^ 53"
  shows "round_double (rat_of_nat n) = rat_of_nat n"
proof (cases "n = 0")
  case True then show ?thesis by (simp add: round_double_def)
next
  case False
  define x where "x = rat_of_nat n"
  have x1: "1 \<le> x" using False by (simp add: x_def)
  have x0: "0 < x" using x1 by simp
  have xu: "x \<le> 2 ^ 53" using n unfolding x_def
    by (metis of_nat_le_iff of_nat_numeral of_nat_power)
  have "2 powi 0 \<le> x" using x1 by simp
  then have f0: "0 \<le> floor_log2 x" by (rule floor_log2_ge)
  have "x < 2 powi 54" using xu by simp
  then have f1: "floor_log2 x < 54" by (rule floor_log2_le[OF x0])
  define e where "e = max (floor_log2 x - 52) (- 1074)"
  have e: "e = floor_log2 x - 52" using f0 by (simp add: e_def)
  have rd: "round_double x = rat_of_int (round_even (x / 2 powi e)) * 2 powi e"
    by (simp add: round_double_pos[OF x0] e_def)
  show ?thesis
  proof (cases "e \<le> 0")
    case True
    then have "2 powi e = 1 / (2::rat) ^ nat (- e)"
      by (simp add: power_int_def field_simps)
    then have q: "x / 2 powi e = rat_of_int (int n * 2 ^ nat (- e))"
      by (simp add: x_def)
    have "round_double x = rat_of_int (int n * 2 ^ nat (- e)) * 2 powi e"
      unfolding rd q round_even_int ..
    also have "\<dots> = x" using \<open>2 powi e = 1 / (2::rat) ^ nat (- e)\<close> by (simp add: x_def)
    finally show ?thesis by (simp add: x_def)
  next
    case False
    then have e1: "e = 1" using e f1 by simp
    then have "floor_log2 x = 53" using e by simp
    then have "2 powi 53 \<le> x" using floor_log2_bounds[OF x0] by simp
    then have xv: "x = 2 ^ 53" using xu by simp
    have q: "x / 2 powi e = rat_of_int (2 ^ 52)" by (simp add: xv e1)
    have "round_double x = rat_of_int (2 ^ 52) * 2 powi e" unfolding rd q round_even_int ..
    also have "\<dots> = x" by (simp add: xv e1)
    finally show ?thesis by (simp add: x_def)
  qed
qed

lemma round_double_int:
  assumes n: "\<bar>n\<bar> \<le> 2 ^ 53"
  shows "round_double (rat_of_int n) = rat_of_int n"
proof (cases "0 \<le> n")
  case True
  then have "nat n \<le> 2 ^ 53" using n by (simp add: nat_le_iff)
  from round_double_nat[OF this] True show ?thesis by simp
next
  case False
  then have "nat (- n) \<le> 2 ^ 53" using n by (simp add: nat_le_iff)
  from round_double_nat[OF this] False have "round_double (rat_of_int (- n)) = rat_of_int (- n)"
    by simp
  then show ?thesis using round_double_minus[of "rat_of_int n"] by simp
qed

lemma round_double_whole:
  "is_integer x \<Longrightarrow> \<bar>x\<bar> \<le> 9007199254740992 \<Longrightarrow> round_double x = x"
proof -
  assume i: "is_integer x" and b: "\<bar>x\<bar> \<le> 9007199254740992"
  from i have x: "x = rat_of_int \<lfloor>x\<rfloor>" unfolding is_integer_def by (rule sym)
  have "\<bar>rat_of_int \<lfloor>x\<rfloor>\<bar> \<le> rat_of_int 9007199254740992" using b x by simp
  then have "\<bar>\<lfloor>x\<rfloor>\<bar> \<le> 9007199254740992" by (metis of_int_abs of_int_le_iff)
  then have "\<bar>\<lfloor>x\<rfloor>\<bar> \<le> 2 ^ 53" by simp
  from round_double_int[OF this] x show ?thesis by simp
qed

text \<open>underflow and the tie at \<open>2 ^ 53 + 1\<close>\<close>

lemma round_even_small: "0 \<le> q \<Longrightarrow> q < 1 / 2 \<Longrightarrow> round_even q = 0"
proof -
  assume q0: "0 \<le> q" and q: "q < 1 / 2"
  have fl: "\<lfloor>q\<rfloor> = 0" using q q0 by (simp add: floor_eq_iff)
  show ?thesis using q by (simp add: round_even_def Let_def fl)
qed

lemma round_double_tiny:
  assumes x: "\<bar>x\<bar> < 2 powi (- 1075)"
  shows "round_double x = 0"
proof (cases "x = 0")
  case True then show ?thesis by (simp add: round_double_def)
next
  case False
  define a where "a = \<bar>x\<bar>"
  define p where "p = (2::rat) powi (- 1074)"
  have p0: "0 < p" by (simp add: p_def)
  have a0: "0 < a" using False by (simp add: a_def)
  have a1: "a < 2 powi (- 1075)" using x by (simp add: a_def)
  then have "floor_log2 a < - 1075" by (rule floor_log2_le[OF a0])
  then have e: "max (floor_log2 a - 52) (- 1074) = - 1074" by simp
  have "(2::rat) powi (- 1075) = 2 powi (- 1074 - 1)" by simp
  also have "\<dots> = p / 2" unfolding p_def by (subst power_int_diff) simp_all
  finally have h: "(2::rat) powi (- 1075) = p / 2" .
  have "a / p < (p / 2) / p" using a1 p0 unfolding h by (rule divide_strict_right_mono)
  then have q: "a / p < 1 / 2" using p0 by simp
  have q0: "0 \<le> a / p" using a0 p0 by simp
  have "round_even (a / p) = 0" using q0 q by (rule round_even_small)
  moreover have "round_double a = rat_of_int (round_even (a / p)) * p"
    unfolding round_double_pos[OF a0] e p_def ..
  ultimately have "round_double a = 0" by simp
  then show ?thesis using round_double_minus[of x] by (cases "0 \<le> x") (simp_all add: a_def abs_if)
qed

lemma round_double_tie: "round_double 9007199254740993 = 9007199254740992"
proof -
  have x0: "0 < (9007199254740993::rat)" by simp
  have "floor_log2 9007199254740993 = 53"
    by (rule floor_log2_unique) simp_all
  then have e: "max (floor_log2 9007199254740993 - 52) (- 1074) = 1" by simp
  have fl: "\<lfloor>(9007199254740993::rat) / 2\<rfloor> = 4503599627370496"
    by (rule floor_unique) simp_all
  have "round_even (9007199254740993 / 2) = 4503599627370496"
    by (simp add: round_even_def Let_def fl)
  then show ?thesis by (simp add: round_double_pos[OF x0] e)
qed


text \<open>the ceiling of a quotient\<close>

lemma ceiling_quotient:
  assumes n: "n < 2 ^ 53" and l: "0 < l" "l \<le> 50"
  shows "\<lceil>round_double (rat_of_nat n / rat_of_int l)\<rceil> = \<lceil>rat_of_nat n / rat_of_int l\<rceil>"
proof (cases "l dvd int n")
  case True
  then obtain k where k: "int n = l * k" by (auto simp: dvd_def)
  have "0 \<le> l * k" using k by (metis of_nat_0_le_iff)
  then have kn: "0 \<le> k" using l by (simp add: zero_le_mult_iff)
  have "k \<le> l * k" using l kn by (simp add: mult_le_cancel_right1)
  then have "k \<le> int n" using k by simp
  then have kb: "\<bar>k\<bar> \<le> 2 ^ 53" using kn n by simp
  have "rat_of_nat n = rat_of_int l * rat_of_int k"
    using k by (metis of_int_mult of_int_of_nat_eq)
  then have q: "rat_of_nat n / rat_of_int l = rat_of_int k" using l by simp
  show ?thesis unfolding q round_double_int[OF kb] ..
next
  case False
  define x where "x = rat_of_nat n / rat_of_int l"
  define k where "k = \<lceil>x\<rceil>"
  have lp: "0 < rat_of_int l" using l by simp
  have n0: "0 < n" using False by (cases n) auto
  have x0: "0 < x" using n0 lp by (simp add: x_def)
  have kd: "k = - (- int n div l)"
    unfolding k_def x_def by (metis ceiling_divide_eq_div of_int_of_nat_eq)
  have m: "0 < int n mod l \<and> int n mod l < l"
  proof -
    have "int n mod l \<noteq> 0" using False by (metis dvd_eq_mod_eq_0)
    moreover have "0 \<le> int n mod l" using l by simp
    moreover have "int n mod l < l" using l by simp
    ultimately show ?thesis by simp
  qed
  have kq: "k = int n div l + 1"
    using m l by (simp add: kd zdiv_zminus1_eq_if)
  have nx: "rat_of_int (int n) = x * rat_of_int l" using lp by (simp add: x_def)
  have "int n = l * (int n div l) + int n mod l" by simp
  then have "rat_of_int (int n) = rat_of_int l * rat_of_int (k - 1) + rat_of_int (int n mod l)"
    unfolding kq by (metis add_diff_cancel_right' of_int_add of_int_mult)
  then have xl: "x * rat_of_int l = rat_of_int l * rat_of_int (k - 1) + rat_of_int (int n mod l)"
    using nx by simp
  have "1 \<le> int n mod l" using m by simp
  then have r1: "1 \<le> rat_of_int (int n mod l)" by simp
  have "int n mod l \<le> l - 1" using m by simp
  then have "rat_of_int (int n mod l) \<le> rat_of_int (l - 1)" by (simp only: of_int_le_iff)
  then have r2: "rat_of_int (int n mod l) \<le> rat_of_int l - 1" by simp
  have lo: "rat_of_int (k - 1) + 1 / rat_of_int l \<le> x"
  proof -
    have "(rat_of_int (k - 1) + 1 / rat_of_int l) * rat_of_int l = rat_of_int l * rat_of_int (k - 1) + 1"
      using lp by (simp add: algebra_simps)
    also have "\<dots> \<le> x * rat_of_int l" using xl r1 by simp
    finally show ?thesis using lp by (simp only: mult_le_cancel_right_pos)
  qed
  have hi: "x \<le> rat_of_int k - 1 / rat_of_int l"
  proof -
    have "x * rat_of_int l \<le> rat_of_int l * rat_of_int (k - 1) + rat_of_int l - 1" using xl r2 by simp
    also have "\<dots> = (rat_of_int k - 1 / rat_of_int l) * rat_of_int l"
      using lp by (simp add: algebra_simps)
    finally show ?thesis using lp by (simp only: mult_le_cancel_right_pos)
  qed
  have l50: "rat_of_int l \<le> 50" using l by (metis of_int_le_iff of_int_numeral)
  have "1 / 50 \<le> 1 / rat_of_int l" using lp l50 by (simp add: frac_le)
  moreover have "0 \<le> int n div l" using l by (simp add: pos_imp_zdiv_nonneg_iff)
  then have "0 \<le> rat_of_int (k - 1)" unfolding kq by simp
  ultimately have xs: "1 / 50 \<le> x" using lo by linarith
  have "(2::rat) powi (- 1022) \<le> 1 / 50"
    by (simp add: power_int_minus field_simps)
  then have big: "2 powi (- 1022) \<le> x" using xs by simp
  have nb: "rat_of_nat n < 2 ^ 53" using n by (metis of_nat_less_iff of_nat_numeral of_nat_power)
  have "x / 2 ^ 53 = (rat_of_nat n / 2 ^ 53) / rat_of_int l" by (simp add: x_def)
  also have "\<dots> < 1 / rat_of_int l"
  proof -
    have "rat_of_nat n / 2 ^ 53 < 1" using nb by simp
    then show ?thesis using lp by (rule divide_strict_right_mono)
  qed
  finally have err: "\<bar>round_double x - x\<bar> < 1 / rat_of_int l"
    using round_double_relative[OF big] by simp
  have a: "rat_of_int k - 1 < round_double x" using err lo by (simp add: abs_less_iff)
  have b: "round_double x \<le> rat_of_int k" using err hi by (simp add: abs_less_iff)
  have "\<lceil>round_double x\<rceil> = k" using a b by (simp add: ceiling_eq_iff)
  then show ?thesis by (simp add: k_def x_def)
qed

text \<open>conversion of whole numbers, and comparison with a small integer\<close>

lemma big_pos: "(0::rat) < 2 ^ 1024" by simp

lemma to_number_whole:
  "is_integer x \<Longrightarrow> \<bar>x\<bar> \<le> 9007199254740992 \<Longrightarrow> to_number x = Num x"
proof -
  assume i: "is_integer x" and b: "\<bar>x\<bar> \<le> 9007199254740992"
  have r: "round_double x = x" using i b by (rule round_double_whole)
  have "(9007199254740992::rat) < 2 ^ 1024" by simp
  then have "x < 2 ^ 1024" "- (2 ^ 1024) < x" using b by linarith+
  then show ?thesis by (simp add: to_number_def r Let_def)
qed

lemma to_number_int: "\<bar>n\<bar> \<le> 2 ^ 53 \<Longrightarrow> to_number (rat_of_int n) = Num (rat_of_int n)"
proof -
  assume n: "\<bar>n\<bar> \<le> 2 ^ 53"
  have i: "is_integer (rat_of_int n)" by (simp add: is_integer_def)
  have "\<bar>rat_of_int n\<bar> \<le> rat_of_int (2 ^ 53)" using n by (metis of_int_abs of_int_le_iff)
  then have "\<bar>rat_of_int n\<bar> \<le> 9007199254740992" by simp
  with i show ?thesis by (rule to_number_whole)
qed

lemma to_number_cases:
  "(to_number x = PosInf \<and> 2 ^ 1024 \<le> round_double x)
   \<or> (to_number x = NegInf \<and> round_double x \<le> - (2 ^ 1024))
   \<or> to_number x = Num (round_double x)"
  by (simp add: to_number_def Let_def)

lemma to_number_not_nan: "to_number x \<noteq> NaN"
  by (simp add: to_number_def Let_def)

text \<open>rounding keeps an integer on its side of a small integer\<close>

lemma round_double_int_ge:
  assumes m: "1 \<le> m" "m \<le> 2 ^ 53 - 1" and n: "m \<le> n"
  shows "rat_of_int m \<le> round_double (rat_of_int n)"
proof (cases "n \<le> 2 ^ 53")
  case True
  then have "\<bar>n\<bar> \<le> 2 ^ 53" using m n by simp
  then show ?thesis using n by (simp add: round_double_int)
next
  case False
  define x where "x = rat_of_int n"
  have "(2::int) ^ 53 \<le> n" using False by simp
  then have "rat_of_int (2 ^ 53) \<le> rat_of_int n" by (simp only: of_int_le_iff)
  then have xb: "2 ^ 53 \<le> x" by (simp add: x_def)
  have "(2::rat) powi (- 1022) \<le> 1" by (simp add: power_int_minus field_simps)
  then have "2 powi (- 1022) \<le> x" using xb by simp
  from round_double_relative[OF this] have "\<bar>round_double x - x\<bar> \<le> x / 2 ^ 53" .
  then have "x - x / 2 ^ 53 \<le> round_double x" by linarith
  moreover have "2 ^ 53 - 1 \<le> x - x / 2 ^ 53"
  proof -
    have "x - x / 2 ^ 53 = x * (1 - 1 / 2 ^ 53)" by (simp add: algebra_simps)
    moreover have "2 ^ 53 * (1 - 1 / 2 ^ 53) \<le> x * (1 - 1 / (2::rat) ^ 53)"
      using xb by (intro mult_right_mono) simp_all
    ultimately show ?thesis by simp
  qed
  moreover have "rat_of_int m \<le> rat_of_int (2 ^ 53 - 1)" using m(2) by (simp only: of_int_le_iff)
  ultimately show ?thesis by (simp add: x_def)
qed

lemma round_double_int_le:
  assumes m: "0 \<le> m" "m \<le> 2 ^ 53" and n: "n \<le> m"
  shows "round_double (rat_of_int n) \<le> rat_of_int m"
proof (cases "0 \<le> n")
  case True
  then have "\<bar>n\<bar> \<le> 2 ^ 53" using m n by simp
  then show ?thesis using n by (simp add: round_double_int)
next
  case False
  then have "rat_of_int n \<le> 0" by simp
  then have "round_double (rat_of_int n) \<le> 0" by (rule round_double_nonpos)
  moreover have "0 \<le> rat_of_int m" using m by simp
  ultimately show ?thesis by simp
qed

lemma number_ge:
  assumes m: "1 \<le> m" "m \<le> 2 ^ 53 - 1"
  shows "js_le (Num (rat_of_int m)) (to_number (rat_of_int n)) \<longleftrightarrow> m \<le> n"
proof (cases "m \<le> n")
  case True
  from round_double_int_ge[OF m True] have r: "rat_of_int m \<le> round_double (rat_of_int n)" .
  have "0 \<le> rat_of_int m" using m by simp
  then have "\<not> round_double (rat_of_int n) \<le> - (2 ^ 1024)" using r big_pos by linarith
  then show ?thesis using True to_number_cases[of "rat_of_int n"] r by auto
next
  case False
  then have "n \<le> m - 1" by simp
  moreover have "0 \<le> m - 1" "m - 1 \<le> 2 ^ 53" using m by simp_all
  ultimately have "round_double (rat_of_int n) \<le> rat_of_int (m - 1)"
    using round_double_int_le[of "m - 1" n] by simp
  then have r: "round_double (rat_of_int n) < rat_of_int m" by simp
  have "rat_of_int m \<le> rat_of_int (2 ^ 53 - 1)" using m(2) by (simp only: of_int_le_iff)
  then have "rat_of_int m < 2 ^ 1024" by simp
  then have "\<not> 2 ^ 1024 \<le> round_double (rat_of_int n)" using r by linarith
  then show ?thesis using False to_number_cases[of "rat_of_int n"] r by auto
qed

lemma number_le:
  assumes m: "0 \<le> m" "m \<le> 2 ^ 53 - 2"
  shows "js_le (to_number (rat_of_int n)) (Num (rat_of_int m)) \<longleftrightarrow> n \<le> m"
proof (cases "n \<le> m")
  case True
  have "m \<le> 2 ^ 53" using m by simp
  from round_double_int_le[OF m(1) this True] have r: "round_double (rat_of_int n) \<le> rat_of_int m" .
  have "rat_of_int m \<le> rat_of_int (2 ^ 53 - 2)" using m(2) by (simp only: of_int_le_iff)
  then have "rat_of_int m < 2 ^ 1024" by simp
  then have "\<not> 2 ^ 1024 \<le> round_double (rat_of_int n)" using r by linarith
  then show ?thesis using True to_number_cases[of "rat_of_int n"] r by auto
next
  case False
  then have "m + 1 \<le> n" by simp
  moreover have "1 \<le> m + 1" "m + 1 \<le> 2 ^ 53 - 1" using m by simp_all
  ultimately have "rat_of_int (m + 1) \<le> round_double (rat_of_int n)"
    using round_double_int_ge[of "m + 1" n] by simp
  then have r: "rat_of_int m < round_double (rat_of_int n)" by simp
  have "0 \<le> rat_of_int m" using m by simp
  then have "\<not> round_double (rat_of_int n) \<le> - (2 ^ 1024)" using r big_pos by linarith
  then show ?thesis using False to_number_cases[of "rat_of_int n"] r by auto
qed

section \<open>Properties of the lexical functions\<close>

lemmas lex_defs = parseInt_def parseInt_param_def or_default_def drop_sign_def is_sign_def
  space1_def space2_def space3_def is_digit_def digit_value_def negative_def int_shaped_def
  int_value_def isInt_def float_shaped_def isFloat_def parseFloat_def exponent_part_def
  scale10_def truthy_def to_number_whole is_integer_def

lemma is_digit_value: "is_digit c \<Longrightarrow> digit_value 10 c = Some (of_char c - 48)"
  by (auto simp: is_digit_def digit_value_def Let_def)

lemma digit_not_x: "is_digit c \<Longrightarrow> c \<noteq> CHR ''x'' \<and> c \<noteq> CHR ''X'' \<and> c \<noteq> CHR '','' \<and> \<not> is_sign c"
  by (auto simp: is_digit_def is_sign_def)

lemma no_space_start:
  assumes "is_digit c \<or> is_sign c"
  shows "\<not> space1 c \<and> \<not> space2 c a \<and> \<not> space3 c a b"
  using assms by (auto simp: is_digit_def is_sign_def space1_def space2_def space3_def Let_def)

lemma skip_space_id: "is_digit c \<or> is_sign c \<Longrightarrow> skip_space (c # cs) = c # cs"
proof -
  assume a: "is_digit c \<or> is_sign c"
  show ?thesis
  proof (cases cs)
    case Nil
    then show ?thesis using no_space_start[OF a] by simp
  next
    case (Cons x xs)
    then show ?thesis using no_space_start[OF a] by (cases xs) simp_all
  qed
qed

lemma int_shaped_parseInt: "int_shaped s \<Longrightarrow> parseInt s = to_number (rat_of_int (int_value s))"
proof -
  assume a: "int_shaped s"
  then obtain c cs where s: "s = c # cs"
    by (cases s) (auto simp: int_shaped_def drop_sign_def)
  have st: "is_digit c \<or> is_sign c"
    using a s by (auto simp: int_shaped_def drop_sign_def split: if_splits)
  have dw: "skip_space s = s" unfolding s using st by (rule skip_space_id)
  obtain b bs where body: "drop_sign s = b # bs" and bd: "is_digit b" and bsd: "list_all is_digit bs"
    using a by (cases "drop_sign s") (auto simp: int_shaped_def)
  have nohex: "\<not> (case drop_sign s of a # b # _ \<Rightarrow> a = CHR ''0'' \<and> (b = CHR ''x'' \<or> b = CHR ''X'') | _ \<Rightarrow> False)"
    using body bsd by (cases bs) (auto simp: digit_not_x)
  show ?thesis
    using nohex body bd unfolding parseInt_def Let_def dw int_value_def
    by (simp add: is_digit_value)
qed

lemma isInt_page: "isInt (Some 1) None s \<longleftrightarrow> int_shaped s \<and> 1 \<le> int_value s"
  using number_ge[of 1 "int_value s"] by (simp add: isInt_def)

lemma isInt_limit:
  "isInt (Some 1) (Some 50) s \<longleftrightarrow> int_shaped s \<and> 1 \<le> int_value s \<and> int_value s \<le> 50"
  using number_ge[of 1 "int_value s"] number_le[of 50 "int_value s"] by (simp add: isInt_def)

lemma replace_comma_id: "CHR '','' \<notin> set s \<Longrightarrow> replace_comma s = s"
  by (induction s) auto

lemma set_split_while: "set xs = set (takeWhile P xs) \<union> set (dropWhile P xs)"
  by (metis set_append takeWhile_dropWhile_id)

lemma comma_not_digit: "\<not> is_digit (CHR '','')"
  by (simp add: is_digit_def)

lemma digits_no_comma: "list_all is_digit xs \<Longrightarrow> CHR '','' \<notin> set xs"
  using comma_not_digit by (auto simp: list_all_iff)

lemma takeWhile_no_comma: "CHR '','' \<notin> set (takeWhile is_digit xs)"
  using comma_not_digit by (auto dest: set_takeWhileD)

lemma drop_sign_comma: "CHR '','' \<notin> set (drop_sign s) \<Longrightarrow> CHR '','' \<notin> set s"
  by (cases s) (auto simp: drop_sign_def is_sign_def split: if_splits)

lemma float_no_comma: "float_shaped s \<Longrightarrow> CHR '','' \<notin> set s"
proof -
  assume a: "float_shaped s"
  define r1 where "r1 = dropWhile is_digit (drop_sign s)"
  define r2 where "r2 = (case r1 of [] \<Rightarrow> [] | c # cs \<Rightarrow> if c = CHR ''.'' then dropWhile is_digit cs else r1)"
  have r2ok: "CHR '','' \<notin> set r2"
  proof (cases r2)
    case Nil then show ?thesis by simp
  next
    case (Cons e r3)
    with a have "(e = CHR ''e'' \<or> e = CHR ''E'') \<and> list_all is_digit (drop_sign r3)"
      by (simp add: float_shaped_def Let_def r1_def[symmetric] r2_def[symmetric])
    then show ?thesis using Cons drop_sign_comma[of r3] digits_no_comma[of "drop_sign r3"] by auto
  qed
  have r1ok: "CHR '','' \<notin> set r1"
  proof (cases r1)
    case Nil then show ?thesis by simp
  next
    case (Cons c cs)
    show ?thesis
    proof (cases "c = CHR ''.''")
      case True
      then have "r2 = dropWhile is_digit cs" using Cons by (simp add: r2_def)
      then have "CHR '','' \<notin> set cs"
        using r2ok set_split_while[of cs is_digit] takeWhile_no_comma[of cs] by auto
      then show ?thesis using Cons True by auto
    next
      case False
      then have "r2 = r1" using Cons by (simp add: r2_def)
      then show ?thesis using r2ok by simp
    qed
  qed
  have "CHR '','' \<notin> set (drop_sign s)"
    using r1ok set_split_while[of "drop_sign s" is_digit] takeWhile_no_comma[of "drop_sign s"]
    by (auto simp: r1_def)
  then show ?thesis by (rule drop_sign_comma)
qed

lemma js_le_zero: "js_le (Num 0) x \<Longrightarrow> x \<noteq> NaN \<and> \<not> js_less x (Num 0)"
  by (cases x) auto

lemma isFloat_nonneg: "isFloat (Some 0) s \<Longrightarrow> float_shaped s \<and> js_le (Num 0) (parseFloat s)"
  by (auto simp: isFloat_def float_no_comma replace_comma_id split: if_splits)

lemma parseInt_undefined: "parseInt ''undefined'' = NaN"
  by (simp add: lex_defs)

lemma parseInt_no_break_space: "parseInt (CHR 0xC2 # CHR 0xA0 # ''2020'') = Num 2020"
  by (simp add: lex_defs)

lemma trim_no_break_space: "trim (CHR 0xC2 # CHR 0xA0 # ''a b'' @ [CHR 0xE2, CHR 0x80, CHR 0xA8, CHR 0x20]) = ''a b''"
  by (simp add: trim_def space1_def space2_def space3_def)

lemma bad_page_rejected: "bad_int 1 None s \<Longrightarrow> \<not> isInt (Some 1) None s"
  by (auto simp: bad_int_def isInt_page)

lemma bad_limit_rejected: "bad_int 1 (Some 50) s \<Longrightarrow> \<not> isInt (Some 1) (Some 50) s"
  by (auto simp: bad_int_def isInt_limit)

lemma bad_price_rejected: "bad_price s \<Longrightarrow> \<not> isFloat (Some 0) s"
  using isFloat_nonneg[of s] js_le_zero[of "parseFloat s"] by (auto simp: bad_price_def)

lemma tiny_price: "\<bar>- (1 / (10::rat) ^ 400)\<bar> < 2 powi (- 1075)"
  by (simp add: power_int_minus field_simps)

lemma parseFloat_tiny: "parseFloat ''-1e-400'' = Num 0"
proof -
  have "parseFloat ''-1e-400'' = to_number (- (1 / 10 ^ 400))"
    by (simp add: parseFloat_def drop_sign_def is_sign_def space1_def space2_def space3_def
        is_digit_def digit_value_def negative_def exponent_part_def scale10_def Let_def)
  moreover have "round_double (- (1 / 10 ^ 400)) = 0"
    using tiny_price by (rule round_double_tiny)
  ultimately show ?thesis by (simp add: to_number_def)
qed


section \<open>Properties of filters, patterns and the store\<close>

lemma assign_regex_keeps:
  "assign_regex P q k f = Inr g \<Longrightarrow> k \<noteq> k' \<Longrightarrow> map_of g k' = map_of f k'"
  by (auto simp: assign_regex_def then_do_def update_conv' split: if_splits sum.splits)

lemma assign_eq_keeps: "k \<noteq> k' \<Longrightarrow> map_of (assign_eq q k f) k' = map_of f k'"
  by (simp add: assign_eq_def update_conv')

lemma assign_year_keeps: "k' \<noteq> ''year'' \<Longrightarrow> map_of (assign_year q f) k' = map_of f k'"
  by (simp add: assign_year_def update_conv')

lemma assign_price_keeps: "k' \<noteq> ''price'' \<Longrightarrow> map_of (assign_price q f) k' = map_of f k'"
  by (simp add: assign_price_def update_conv')

lemma build_filter_public: "build_filter P q = Inr f \<Longrightarrow> public_only f"
proof -
  assume b: "build_filter P q = Inr f"
  then obtain f1 f2 where
    f1: "assign_regex P q ''make'' base_filter = Inr f1" and
    f2: "assign_regex P q ''model'' f1 = Inr f2" and
    f: "f = assign_price q (assign_eq q ''bodyType'' (assign_eq q ''transmission''
          (assign_eq q ''fuelType'' (assign_eq q ''condition'' (assign_year q f2)))))"
    by (auto simp: build_filter_def then_do_def split: sum.splits)
  have "map_of f k = map_of base_filter k" if "k = ''isActive'' \<or> k = ''status''" for k
    using that f assign_regex_keeps[OF f1, of k] assign_regex_keeps[OF f2, of k]
    by (auto simp: assign_eq_keeps assign_year_keeps assign_price_keeps)
  then show ?thesis by (simp add: public_only_def base_filter_def)
qed

lemma matches_public:
  "public_only f \<Longrightarrow> matches P f v \<Longrightarrow> isActive v \<and> status v = ''available''"
proof -
  assume p: "public_only f" and m: "matches P f v"
  have a: "(''isActive'', Eq (JBool True)) \<in> set f" and s: "(''status'', Eq (JStr ''available'')) \<in> set f"
    using p by (auto simp: public_only_def dest: map_of_SomeD)
  from m a have "holds P (Eq (JBool True)) (field ''isActive'' v)"
    by (auto simp: matches_def list_all_iff)
  moreover from m s have "holds P (Eq (JStr ''available'')) (field ''status'' v)"
    by (auto simp: matches_def list_all_iff)
  ultimately show ?thesis by (simp add: field_def)
qed

lemma set_insert_by: "set (insert_by le x xs) = insert x (set xs)"
  by (induction xs) auto

lemma set_order_docs: "set (order_docs P s xs) = set xs"
  unfolding order_docs_def by (induction xs) (auto simp: set_insert_by)

lemma length_insert_by: "length (insert_by le x xs) = Suc (length xs)"
  by (induction xs) auto

lemma length_order_docs: "length (order_docs P s xs) = length xs"
  unfolding order_docs_def by (induction xs) (auto simp: length_insert_by)

lemma set_window: "set (window w xs) \<subseteq> set xs"
  by (auto simp: window_def dest: in_set_takeD in_set_dropD split: option.splits)

lemma cast_filter_Inr: "cast_filter f = Inr g \<Longrightarrow> g = f"
  by (auto simp: cast_filter_def split: if_splits)










lemma find_holds: "find p xs = Some v \<Longrightarrow> p v"
  by (induction xs) (auto split: if_splits)

lemma find_replace_first:
  "find p xs = Some v \<Longrightarrow> q v \<Longrightarrow> (\<And>x. q x \<Longrightarrow> p x) \<Longrightarrow> p w \<Longrightarrow>
     find p (replace_first q w xs) = Some w"
proof (induction xs)
  case Nil
  then show ?case by simp
next
  case (Cons x xs)
  show ?case
  proof (cases "p x")
    case True
    then have "x = v" using Cons.prems(1) by simp
    then show ?thesis using Cons.prems by simp
  next
    case False
    then have "\<not> q x" using Cons.prems(3) by blast
    then show ?thesis using False Cons by simp
  qed
qed

lemma findById_found:
  "stored d i = Some v \<Longrightarrow>
     Vehicle_findById d (Some i) = (Inr (Some v), d\<lparr>oplog := oplog d @ [VehicleFindById i]\<rparr>)"
  by (auto simp: stored_def Vehicle_findById_def Let_def split: if_splits)

lemma findById_missing:
  "valid_oid i \<Longrightarrow> stored d i = None \<Longrightarrow>
     Vehicle_findById d (Some i) = (Inr None, d\<lparr>oplog := oplog d @ [VehicleFindById i]\<rparr>)"
  by (auto simp: stored_def Vehicle_findById_def Let_def split: if_splits)

lemma findById_malformed:
  "\<not> valid_oid i \<Longrightarrow>
     Vehicle_findById d (Some i) = (Inl CastError, d\<lparr>oplog := oplog d @ [VehicleFindById i]\<rparr>)"
  by (auto simp: Vehicle_findById_def Let_def)

lemma findById_unresolved:
  "stored d i = None \<Longrightarrow>
     \<exists>e. Vehicle_findById d (Some i) = (e, d\<lparr>oplog := oplog d @ [VehicleFindById i]\<rparr>)
        \<and> (e = Inr None \<or> e = Inl CastError)"
  by (cases "valid_oid i") (simp_all add: findById_missing findById_malformed)

lemma schema_errors_views:
  "schema_errors P (v\<lparr>views := a\<rparr>) = schema_errors P v"
  "schema_errors P (v\<lparr>updatedAt := t\<rparr>) = schema_errors P v"
  by (simp_all add: schema_errors_def)

section \<open>Properties of the listing handler\<close>

lemma validation_page:
  "list_validation q = [] \<Longrightarrow> q ''page'' = Some s \<Longrightarrow> isInt (Some 1) None s"
  by (auto simp: list_validation_def check_optional_def split: option.splits if_splits)

lemma validation_limit:
  "list_validation q = [] \<Longrightarrow> q ''limit'' = Some s \<Longrightarrow> isInt (Some 1) (Some 50) s"
  by (auto simp: list_validation_def check_optional_def split: option.splits if_splits)

lemma page_of_absent: "q ''page'' = None \<Longrightarrow> page_of q = Num 1"
  by (simp add: page_of_def parseInt_param_def parseInt_undefined or_default_def)

lemma limit_of_absent: "q ''limit'' = None \<Longrightarrow> limit_of q = Num 10"
  by (simp add: limit_of_def parseInt_param_def parseInt_undefined or_default_def)

lemma number_truthy: "1 \<le> n \<Longrightarrow> or_default (to_number (rat_of_int n)) d = to_number (rat_of_int n)"
proof -
  assume "1 \<le> n"
  then have "js_le (Num 1) (to_number (rat_of_int n))" using number_ge[of 1 n] by simp
  then have "to_number (rat_of_int n) \<noteq> NaN \<and> to_number (rat_of_int n) \<noteq> Num 0"
    by (cases "to_number (rat_of_int n)") auto
  then show ?thesis by (simp add: or_default_def)
qed

lemma page_of_valid:
  assumes "list_validation q = []" and "q ''page'' = Some s"
  shows "page_of q = to_number (rat_of_int (int_value s)) \<and> 1 \<le> int_value s"
proof -
  from validation_page[OF assms] have i: "int_shaped s" and b: "1 \<le> int_value s"
    by (simp_all add: isInt_page)
  show ?thesis
    using b by (simp add: page_of_def parseInt_param_def assms(2) int_shaped_parseInt[OF i] number_truthy)
qed

lemma limit_of_valid:
  assumes "list_validation q = []" and "q ''limit'' = Some s"
  shows "limit_of q = Num (rat_of_int (int_value s)) \<and> 1 \<le> int_value s \<and> int_value s \<le> 50"
proof -
  from validation_limit[OF assms] have i: "int_shaped s" and b: "1 \<le> int_value s" "int_value s \<le> 50"
    by (simp_all add: isInt_limit)
  have "\<bar>int_value s\<bar> \<le> 2 ^ 53" using b by simp
  then have "to_number (rat_of_int (int_value s)) = Num (rat_of_int (int_value s))"
    by (rule to_number_int)
  then show ?thesis
    using b number_truthy[of "int_value s" "Num 10"]
    by (simp add: limit_of_def parseInt_param_def assms(2) int_shaped_parseInt[OF i])
qed

lemma req_page_bounds:
  "list_validation q = [] \<Longrightarrow> 1 \<le> req_page q \<and> page_of q = to_number (rat_of_int (req_page q))"
proof (cases "q ''page''")
  case None
  have "to_number (rat_of_int 1) = Num (rat_of_int 1)" by (rule to_number_int) simp
  then show ?thesis using None by (simp add: req_page_def page_of_absent)
next
  case (Some s)
  assume "list_validation q = []"
  from page_of_valid[OF this Some] show ?thesis by (simp add: req_page_def Some)
qed

lemma req_limit_bounds:
  "list_validation q = [] \<Longrightarrow>
     1 \<le> req_limit q \<and> req_limit q \<le> 50 \<and> limit_of q = Num (rat_of_int (req_limit q))"
proof (cases "q ''limit''")
  case None
  then show ?thesis by (simp add: req_limit_def limit_of_absent)
next
  case (Some s)
  assume "list_validation q = []"
  from limit_of_valid[OF this Some] show ?thesis by (simp add: req_limit_def Some)
qed

lemma page_of_safe:
  assumes "list_validation q = []" and "req_page q \<le> 2 ^ 53"
  shows "page_of q = Num (rat_of_int (req_page q))"
proof -
  from req_page_bounds[OF assms(1)] have b: "1 \<le> req_page q"
    and p: "page_of q = to_number (rat_of_int (req_page q))" by simp_all
  have "\<bar>req_page q\<bar> \<le> 2 ^ 53" using b assms(2) by simp
  then show ?thesis unfolding p by (rule to_number_int)
qed

lemma skip_safe:
  assumes p: "1 \<le> p" and l: "1 \<le> l" and pl: "p * l \<le> 2 ^ 53"
  shows "js_mul (js_sub (Num (rat_of_int p)) (Num 1)) (Num (rat_of_int l)) = Num (rat_of_int ((p - 1) * l))
       \<and> 0 \<le> (p - 1) * l \<and> (p - 1) * l \<le> 2 ^ 53 - 1 \<and> p \<le> 2 ^ 53"
proof -
  have "p * 1 \<le> p * l" using p l by (intro mult_left_mono) simp_all
  then have pb: "p \<le> 2 ^ 53" using pl by simp
  have "\<bar>p - 1\<bar> \<le> 2 ^ 53" using p pb by simp
  then have s: "to_number (rat_of_int (p - 1)) = Num (rat_of_int (p - 1))" by (rule to_number_int)
  have nn: "0 \<le> (p - 1) * l" using p l by simp
  have "(p - 1) * l = p * l - l" by (simp add: algebra_simps)
  then have ub: "(p - 1) * l \<le> 2 ^ 53 - 1" using pl l by simp
  then have "\<bar>(p - 1) * l\<bar> \<le> 2 ^ 53" using nn by simp
  then have m: "to_number (rat_of_int ((p - 1) * l)) = Num (rat_of_int ((p - 1) * l))"
    by (rule to_number_int)
  have "rat_of_int p - 1 = rat_of_int (p - 1)" by simp
  then have "js_sub (Num (rat_of_int p)) (Num 1) = to_number (rat_of_int (p - 1))"
    by (simp only: js_sub.simps)
  then have a: "js_sub (Num (rat_of_int p)) (Num 1) = Num (rat_of_int (p - 1))"
    by (simp only: s)
  have "rat_of_int (p - 1) * rat_of_int l = rat_of_int ((p - 1) * l)" by simp
  then have "js_mul (Num (rat_of_int (p - 1))) (Num (rat_of_int l)) = to_number (rat_of_int ((p - 1) * l))"
    by (simp only: js_mul.simps)
  then have b: "js_mul (js_sub (Num (rat_of_int p)) (Num 1)) (Num (rat_of_int l))
      = Num (rat_of_int ((p - 1) * l))"
    by (simp only: a m)
  show ?thesis by (intro conjI b nn ub pb)
qed

lemma store_window_safe:
  assumes s: "0 \<le> s" "s \<le> 2 ^ 53 - 1" and l: "1 \<le> l" "l \<le> 50"
  shows "store_window P (Num (rat_of_int s)) (Num (rat_of_int l)) = Inr (nat s, Some (nat l))"
proof -
  have "rat_of_int s \<le> rat_of_int (2 ^ 53 - 1)" using s(2) by (simp only: of_int_le_iff)
  then have a: "\<bar>rat_of_int s\<bar> \<le> 2 ^ 53 - 1" using s(1) by simp
  have "rat_of_int l \<le> rat_of_int 50" using l(2) by (simp only: of_int_le_iff)
  then have b: "\<bar>rat_of_int l\<bar> \<le> 2 ^ 53 - 1" using l(1) by simp
  have c: "rat_of_int l \<noteq> 0" "\<not> rat_of_int s < 0" using s l by simp_all
  have e: "\<bar>rat_of_int l\<bar> = rat_of_int l" using l by simp
  show ?thesis
    using a b c by (simp add: store_window_def safe_integer_def number_of_def is_integer_def e)
qed

lemma neg_div: "0 < (l::int) \<Longrightarrow> - (- a div l) = (a + l - 1) div l"
proof -
  assume l: "0 < l"
  have m: "0 \<le> a mod l \<and> a mod l < l" using l by simp
  have eq: "a + l - 1 = (a mod l + l - 1) + (a div l) * l"
    by (simp add: algebra_simps)
  have "(a + l - 1) div l = ((a mod l + l - 1) + (a div l) * l) div l"
    by (rule arg_cong[OF eq, of "\<lambda>x. x div l"])
  also have "\<dots> = (a mod l + l - 1) div l + a div l"
    using l by (subst div_mult_self1) simp_all
  finally have e: "(a + l - 1) div l = (a mod l + l - 1) div l + a div l" .
  show ?thesis
  proof (cases "a mod l = 0")
    case True
    then have "(a mod l + l - 1) div l = 0" using l by simp
    then show ?thesis using e True l by (simp add: zdiv_zminus1_eq_if)
  next
    case False
    then have "l \<le> a mod l + l - 1" using m by linarith
    then have "(a mod l + l - 1) div l = (a mod l + l - 1 - l) div l + 1"
      using l by (simp add: div_pos_geq)
    also have "\<dots> = 1" using m False by simp
    finally show ?thesis using e False l by (simp add: zdiv_zminus1_eq_if)
  qed
qed

lemma ceiling_pages:
  "0 < l \<Longrightarrow> \<lceil>rat_of_nat n / rat_of_int l\<rceil> = (int n + l - 1) div l"
proof -
  assume l: "0 < l"
  have "\<lceil>rat_of_nat n / rat_of_int l\<rceil> = - (- int n div l)"
    by (metis ceiling_divide_eq_div of_int_of_nat_eq)
  then show ?thesis using neg_div[OF l, of "int n"] by simp
qed

lemma count_number: "int n < 2 ^ 53 \<Longrightarrow> to_number (rat_of_nat n) = Num (rat_of_nat n)"
proof -
  assume "int n < 2 ^ 53"
  then have "\<bar>int n\<bar> \<le> 2 ^ 53" by simp
  from to_number_int[OF this] show ?thesis by simp
qed

lemma pages_number:
  assumes l: "0 < l" "l \<le> 50" and n: "int n < 2 ^ 53"
  shows "js_ceil (js_div (Num (rat_of_nat n)) (Num (rat_of_int l)))
       = Num (rat_of_int \<lceil>rat_of_nat n / rat_of_int l\<rceil>)"
proof -
  let ?x = "rat_of_nat n / rat_of_int l"
  have nn: "n < 2 ^ 53" using n by (metis of_nat_less_iff of_nat_numeral of_nat_power)
  have c: "\<lceil>round_double ?x\<rceil> = \<lceil>?x\<rceil>" using nn l by (rule ceiling_quotient)
  have lp: "1 \<le> rat_of_int l" using l by simp
  have x0: "0 \<le> ?x" using l by simp
  have "?x \<le> rat_of_nat n / 1" using lp by (intro divide_left_mono) simp_all
  then have "?x \<le> rat_of_int (int n)" by simp
  then have "\<lceil>?x\<rceil> \<le> int n" by (rule ceiling_le)
  then have "\<lceil>round_double ?x\<rceil> \<le> int n" using c by simp
  then have "round_double ?x \<le> rat_of_int (int n)" by (simp only: ceiling_le_iff)
  moreover have "rat_of_int (int n) < rat_of_int (2 ^ 53)" using n by (simp only: of_int_less_iff)
  ultimately have ub: "round_double ?x < 2 ^ 1024" by simp
  have lb: "0 \<le> round_double ?x" using x0 by (rule round_double_nonneg)
  have "\<not> round_double ?x \<le> - (2 ^ 1024)" using lb big_pos by linarith
  then have t: "to_number ?x = Num (round_double ?x)" using ub by (simp add: to_number_def Let_def)
  have "rat_of_int l \<noteq> 0" using l by simp
  then have "js_div (Num (rat_of_nat n)) (Num (rat_of_int l)) = to_number ?x" by simp
  then have "js_ceil (js_div (Num (rat_of_nat n)) (Num (rat_of_int l))) = Num (rat_of_int \<lceil>round_double ?x\<rceil>)"
    by (simp only: t js_ceil.simps)
  then show ?thesis by (simp only: c)
qed

lemma make_pagination_safe:
  assumes l: "0 < l" "l \<le> 50" and n: "int n < 2 ^ 53"
  shows "make_pagination pg (Num (rat_of_int l)) n =
     \<lparr>currentPage = pg, totalPages = Num (rat_of_int ((int n + l - 1) div l)),
      totalVehicles = Num (rat_of_nat n),
      hasNextPage = js_less pg (Num (rat_of_int ((int n + l - 1) div l))),
      hasPrevPage = js_less (Num 1) pg\<rparr>"
  using l
  by (simp add: make_pagination_def Let_def count_number[OF n] pages_number[OF l n] ceiling_pages
      del: js_div.simps)

lemma make_pagination_eval:
  assumes x: "is_integer x" "0 < x" "x \<le> 50" and n: "int n < 9007199254740992"
  shows "make_pagination pg (Num x) n =
     \<lparr>currentPage = pg, totalPages = Num (rat_of_int ((int n + \<lfloor>x\<rfloor> - 1) div \<lfloor>x\<rfloor>)),
      totalVehicles = Num (rat_of_nat n),
      hasNextPage = js_less pg (Num (rat_of_int ((int n + \<lfloor>x\<rfloor> - 1) div \<lfloor>x\<rfloor>))),
      hasPrevPage = js_less (Num 1) pg\<rparr>"
proof -
  have e: "x = rat_of_int \<lfloor>x\<rfloor>" using x(1) unfolding is_integer_def by (rule sym)
  have "0 < rat_of_int \<lfloor>x\<rfloor>" "rat_of_int \<lfloor>x\<rfloor> \<le> 50" using x e by simp_all
  then have l: "0 < \<lfloor>x\<rfloor>" "\<lfloor>x\<rfloor> \<le> 50" by simp_all
  have n2: "int n < 2 ^ 53" using n by simp
  show ?thesis using make_pagination_safe[OF l n2, of pg] e by simp
qed










lemma listing_run:
  assumes valid: "list_validation q = []"
    and built: "build_filter P q = Inr f"
    and accepted: "cast_filter f = Inr f"
    and safe: "req_page q * req_limit q \<le> 2 ^ 53"
  shows "list_vehicles P d q =
      (Listing (map (populate (d\<lparr>oplog := oplog d @ [VehicleFind f (build_sort q) (Num (rat_of_int ((req_page q - 1) * req_limit q))) (Num (rat_of_int (req_limit q))), VehicleCount f]\<rparr>))
                  (take (nat (req_limit q)) (drop (nat ((req_page q - 1) * req_limit q))
                     (order_docs P (build_sort q) (filter (matches P f) (vehicles d))))))
               (make_pagination (Num (rat_of_int (req_page q))) (Num (rat_of_int (req_limit q)))
                  (length (filter (matches P f) (vehicles d)))),
       d\<lparr>oplog := oplog d @ [VehicleFind f (build_sort q) (Num (rat_of_int ((req_page q - 1) * req_limit q))) (Num (rat_of_int (req_limit q))), VehicleCount f]\<rparr>)"
proof -
  from req_page_bounds[OF valid] have p: "1 \<le> req_page q" by simp
  from req_limit_bounds[OF valid] have l: "1 \<le> req_limit q" "req_limit q \<le> 50"
    and lo: "limit_of q = Num (rat_of_int (req_limit q))" by simp_all
  from skip_safe[OF p l(1) safe] have
    sk: "js_mul (js_sub (Num (rat_of_int (req_page q))) (Num 1)) (Num (rat_of_int (req_limit q)))
          = Num (rat_of_int ((req_page q - 1) * req_limit q))"
    and s0: "0 \<le> (req_page q - 1) * req_limit q" and s1: "(req_page q - 1) * req_limit q \<le> 2 ^ 53 - 1"
    and pb: "req_page q \<le> 2 ^ 53" by simp_all
  have po: "page_of q = Num (rat_of_int (req_page q))" using valid pb by (rule page_of_safe)
  have w: "store_window P (Num (rat_of_int ((req_page q - 1) * req_limit q))) (Num (rat_of_int (req_limit q)))
      = Inr (nat ((req_page q - 1) * req_limit q), Some (nat (req_limit q)))"
    using s0 s1 l by (rule store_window_safe)
  have w2: "store_window P (Num ((rat_of_int (req_page q) - 1) * rat_of_int (req_limit q))) (Num (rat_of_int (req_limit q)))
      = Inr (nat ((req_page q - 1) * req_limit q), Some (nat (req_limit q)))"
    using w by simp
  show ?thesis
    using valid built accepted
    by (simp add: list_vehicles_def list_vehicles_body_def catch_def Let_def Vehicle_find_def
        Vehicle_countDocuments_def po lo sk w2 window_def del: js_sub.simps js_mul.simps)
qed

lemma rejected_response:
  "list_validation q \<noteq> [] \<Longrightarrow>
     list_vehicles P d q = (Failure 400 ''Validation failed'' (Some (Fields (list_validation q))), d)"
  by (simp add: list_vehicles_def list_vehicles_body_def catch_def Let_def)

lemma check_optional_error:
  "q k = Some s \<Longrightarrow> \<not> ok s \<Longrightarrow> check_optional q k ok m = [field_error k m s]"
  by (simp add: check_optional_def field_error_def)

lemma listing_reads_only:
  "vehicles (snd (list_vehicles P d q)) = vehicles d
   \<and> contacts (snd (list_vehicles P d q)) = contacts d
   \<and> users (snd (list_vehicles P d q)) = users d"
  by (auto simp: list_vehicles_def list_vehicles_body_def catch_def Let_def Vehicle_find_def
      Vehicle_countDocuments_def split: sum.splits prod.splits)

section \<open>Unfolding on the example data\<close>

lemmas eval_defs = list_vehicles_def list_vehicles_body_def catch_def list_validation_def
  check_optional_def build_filter_def then_do_def assign_regex_def assign_eq_def assign_year_def
  assign_price_def base_filter_def build_sort_def page_of_def limit_of_def make_pagination_eval
  Vehicle_find_def Vehicle_countDocuments_def cast_filter_def store_window_def safe_integer_def
  number_of_def window_def order_docs_def matches_def field_def populate_def RegExp_new_def
  regex_test_def in_fragment_def plain_char_def meta_chars_def lower_def

lemmas data_defs = P0_def db0_def corolla_def civic_def accord_def

lemmas oid_defs = valid_oid_def is_hex_def digit_value_def same_oid_def lower_def stored_def

lemmas contact_eval = contact_validation_def check_body_def or_else_def trim_def space1_def
  space2_def space3_def phone_ok_def

lemmas schema_eval = input_errors_def on_path_def required_string_def required_enum_def
  in_enum_def at_least_def year_errors_def dealer_errors_def fuelTypes_def transmissions_def
  bodyTypes_def conditions_def statuses_def badges_def trim_def space1_def space2_def
  space3_def or_else_def create_validation_def check_body_def check_number_def is_integer_def
  sanitized_def vehicleData_def new_vehicle_def

section \<open>The listing shows public vehicles only\<close>

text \<open>
  C1. Whatever the query, every vehicle of a returned page is active and available; every
  filter the handler sends to the store (with the fetch and with the count) pins
  \<^verbatim>\<open>isActive\<close> to true and \<^verbatim>\<open>status\<close> to \<^verbatim>\<open>available\<close>, and so does every filter
  the construction yields: no parameter assigns either path.
\<close>

theorem listing_public_only:
  assumes "list_vehicles P d q = (resp, d')"
  shows "(\<forall>vs pg. resp = Listing vs pg \<longrightarrow>
            (\<forall>v \<in> set vs. isActive (fst v) \<and> status (fst v) = ''available''))
       \<and> (\<exists>ops. oplog d' = oplog d @ ops
            \<and> (\<forall>op \<in> set ops. \<forall>f. op_filter op = Some f \<longrightarrow> public_only f))
       \<and> (\<forall>f. build_filter P q = Inr f \<longrightarrow> public_only f)"
proof (cases "list_validation q = []")
  case False
  then show ?thesis using assms
    by (auto simp: list_vehicles_def list_vehicles_body_def catch_def Let_def build_filter_public)
next
  case valid: True
  show ?thesis
  proof (cases "build_filter P q")
    case (Inl e)
    then show ?thesis using assms valid
      by (auto simp: list_vehicles_def list_vehicles_body_def catch_def Let_def)
  next
    case (Inr f)
    then have pub: "public_only f" by (rule build_filter_public)
    show ?thesis
    proof (cases "cast_filter f")
      case (Inl e)
      then show ?thesis using assms valid Inr pub
        by (auto simp: list_vehicles_def list_vehicles_body_def catch_def Let_def
            Vehicle_find_def)
    next
      case c: (Inr g)
      then have g: "g = f" by (rule cast_filter_Inr)
      define skp where "skp = js_mul (js_sub (page_of q) (Num 1)) (limit_of q)"
      show ?thesis
      proof (cases "store_window P skp (limit_of q)")
        case (Inl e)
        then show ?thesis using assms valid \<open>build_filter P q = Inr f\<close> pub c
          by (auto simp: list_vehicles_def list_vehicles_body_def catch_def Let_def
              Vehicle_find_def skp_def[symmetric])
      next
        case w: (Inr w)
        have "isActive v \<and> status v = ''available''"
          if "v \<in> set (window w (order_docs P (build_sort q) (filter (matches P f) (vehicles d))))" for v
          using that set_window[of w "order_docs P (build_sort q) (filter (matches P f) (vehicles d))"]
            matches_public[OF pub, of P v] by (auto simp: set_order_docs)
        then show ?thesis using assms valid \<open>build_filter P q = Inr f\<close> pub c g w
          by (auto simp: list_vehicles_def list_vehicles_body_def catch_def Let_def
              Vehicle_find_def Vehicle_countDocuments_def populate_def skp_def[symmetric])
      qed
    qed
  qed
qed

theorem listing_public_only_witness:
  "list_vehicles P0 db0 q_pub =
     (Listing [(corolla, None), (accord, None)]
        \<lparr>currentPage = Num 1, totalPages = Num 1, totalVehicles = Num 2,
         hasNextPage = False, hasPrevPage = False\<rparr>,
      db0\<lparr>oplog := [VehicleFind base_filter (''price'', 1) (Num 0) (Num 10), VehicleCount base_filter]\<rparr>)
   \<and> isActive corolla \<and> status corolla = ''available''
   \<and> isActive accord \<and> status accord = ''available''
   \<and> status civic = ''sold''
   \<and> public_only base_filter"
proof -
  have run: "list_vehicles P0 db0 q_pub =
     (Listing [(corolla, None), (accord, None)]
        \<lparr>currentPage = Num 1, totalPages = Num 1, totalVehicles = Num 2,
         hasNextPage = False, hasPrevPage = False\<rparr>,
      db0\<lparr>oplog := [VehicleFind base_filter (''price'', 1) (Num 0) (Num 10), VehicleCount base_filter]\<rparr>)"
    by (simp add: q_pub_def eval_defs lex_defs data_defs Let_def)
  have b: "build_filter P0 q_pub = Inr base_filter"
    by (simp add: q_pub_def build_filter_def then_do_def assign_regex_def assign_eq_def
        assign_year_def assign_price_def truthy_def)
  have c: "status civic = ''sold''" by (simp add: data_defs)
  from listing_public_only[OF run] b c run show ?thesis by simp
qed

section \<open>Pagination\<close>




section \<open>Malformed parameters\<close>

text \<open>
  C3, as amended. A request with a malformed page, limit, minimum or maximum price is
  answered 400 with the list of validation errors, which holds an entry with the field's
  message for each malformed field, and the store is left as it was, its log of calls
  included: neither the fetch nor the count is run. The limit 51 is answered so, with the
  one error of the limit; the limit 50 is answered with a page of at most 50 vehicles.
\<close>

theorem malformed_rejected:
  "(malformed q \<longrightarrow>
      list_vehicles P d q = (Failure 400 ''Validation failed'' (Some (Fields (list_validation q))), d)
      \<and> oplog (snd (list_vehicles P d q)) = oplog d
      \<and> list_validation q \<noteq> []
      \<and> (\<forall>s. q ''page'' = Some s \<and> bad_int 1 None s \<longrightarrow>
            field_error ''page'' ''Page must be a positive integer'' s \<in> set (list_validation q))
      \<and> (\<forall>s. q ''limit'' = Some s \<and> bad_int 1 (Some 50) s \<longrightarrow>
            field_error ''limit'' ''Limit must be between 1 and 50'' s \<in> set (list_validation q))
      \<and> (\<forall>s. q ''minPrice'' = Some s \<and> bad_price s \<longrightarrow>
            field_error ''minPrice'' ''Min price must be positive'' s \<in> set (list_validation q))
      \<and> (\<forall>s. q ''maxPrice'' = Some s \<and> bad_price s \<longrightarrow>
            field_error ''maxPrice'' ''Max price must be positive'' s \<in> set (list_validation q)))
   \<and> list_vehicles P d [''limit'' \<mapsto> ''51''] =
        (Failure 400 ''Validation failed''
           (Some (Fields [field_error ''limit'' ''Limit must be between 1 and 50'' ''51''])), d)
   \<and> (\<exists>vs pg. list_vehicles P d [''limit'' \<mapsto> ''50''] =
          (Listing vs pg, d\<lparr>oplog := oplog d @ [VehicleFind base_filter (''createdAt'', - 1) (Num 0) (Num 50),
                                                VehicleCount base_filter]\<rparr>)
        \<and> map fst vs = take 50 (order_docs P (''createdAt'', - 1) (filter (matches P base_filter) (vehicles d))))"
proof -
  have e1: "field_error ''page'' ''Page must be a positive integer'' s \<in> set (list_validation q)"
    if "q ''page'' = Some s" "bad_int 1 None s" for s
    using that bad_page_rejected[of s] by (simp add: list_validation_def check_optional_error)
  have e2: "field_error ''limit'' ''Limit must be between 1 and 50'' s \<in> set (list_validation q)"
    if "q ''limit'' = Some s" "bad_int 1 (Some 50) s" for s
    using that bad_limit_rejected[of s] by (simp add: list_validation_def check_optional_error)
  have e3: "field_error ''minPrice'' ''Min price must be positive'' s \<in> set (list_validation q)"
    if "q ''minPrice'' = Some s" "bad_price s" for s
    using that bad_price_rejected[of s] by (simp add: list_validation_def check_optional_error)
  have e4: "field_error ''maxPrice'' ''Max price must be positive'' s \<in> set (list_validation q)"
    if "q ''maxPrice'' = Some s" "bad_price s" for s
    using that bad_price_rejected[of s] by (simp add: list_validation_def check_optional_error)
  have ne: "list_validation q \<noteq> []" if "malformed q"
    using that e1 e2 e3 e4 unfolding malformed_def
    by (auto split: option.splits)
  have part1: "malformed q \<longrightarrow>
      list_vehicles P d q = (Failure 400 ''Validation failed'' (Some (Fields (list_validation q))), d)
      \<and> oplog (snd (list_vehicles P d q)) = oplog d
      \<and> list_validation q \<noteq> []"
    using ne by (simp add: rejected_response)
  have v51: "list_validation [''limit'' \<mapsto> ''51''] = [field_error ''limit'' ''Limit must be between 1 and 50'' ''51'']"
    by (simp add: list_validation_def check_optional_def field_error_def lex_defs)
  have part2: "list_vehicles P d [''limit'' \<mapsto> ''51''] =
        (Failure 400 ''Validation failed''
           (Some (Fields [field_error ''limit'' ''Limit must be between 1 and 50'' ''51''])), d)"
    using rejected_response[of "[''limit'' \<mapsto> ''51'']" P d] by (simp add: v51)
  have v50: "list_validation [''limit'' \<mapsto> ''50''] = []"
    by (simp add: list_validation_def check_optional_def lex_defs)
  have b50: "build_filter P [''limit'' \<mapsto> ''50''] = Inr base_filter"
    by (simp add: build_filter_def then_do_def assign_regex_def assign_eq_def assign_year_def
        assign_price_def truthy_def)
  have c50: "cast_filter base_filter = Inr base_filter"
    by (simp add: cast_filter_def base_filter_def)
  have l50: "req_limit [''limit'' \<mapsto> ''50''] = 50" "req_page [''limit'' \<mapsto> ''50''] = 1"
      "build_sort [''limit'' \<mapsto> ''50''] = (''createdAt'', - 1)"
    by (simp_all add: req_limit_def req_page_def build_sort_def int_value_def drop_sign_def
        is_sign_def negative_def digit_value_def truthy_def)
  have s50: "req_page [''limit'' \<mapsto> ''50''] * req_limit [''limit'' \<mapsto> ''50''] \<le> 2 ^ 53"
    by (simp add: l50)
  have fstpop: "fst \<circ> populate d2 = (\<lambda>v. v)" for d2
    by (auto simp: populate_def)
  have part3: "\<exists>vs pg. list_vehicles P d [''limit'' \<mapsto> ''50''] =
          (Listing vs pg, d\<lparr>oplog := oplog d @ [VehicleFind base_filter (''createdAt'', - 1) (Num 0) (Num 50),
                                                VehicleCount base_filter]\<rparr>)
        \<and> map fst vs = take 50 (order_docs P (''createdAt'', - 1) (filter (matches P base_filter) (vehicles d)))"
    using listing_run[OF v50 b50 c50 s50, of d] by (simp add: l50 fstpop)
  show ?thesis using part1 part2 part3 e1 e2 e3 e4 by blast
qed

theorem malformed_rejected_witness:
  "malformed q_bad
   \<and> list_vehicles P0 db0 q_bad =
       (Failure 400 ''Validation failed''
          (Some (Fields [field_error ''page'' ''Page must be a positive integer'' ''0'',
                 field_error ''limit'' ''Limit must be between 1 and 50'' ''51'',
                 field_error ''minPrice'' ''Min price must be positive'' ''-5''])), db0)"
proof -
  have m: "malformed q_bad"
    by (simp add: q_bad_def malformed_def bad_int_def bad_price_def lex_defs)
  have v: "list_validation q_bad =
     [field_error ''page'' ''Page must be a positive integer'' ''0'',
      field_error ''limit'' ''Limit must be between 1 and 50'' ''51'',
      field_error ''minPrice'' ''Min price must be positive'' ''-5'']"
    by (simp add: q_bad_def list_validation_def check_optional_def field_error_def lex_defs)
  from malformed_rejected[of q_bad P0 db0] m v show ?thesis by simp
qed

text \<open>
  C3, as stated, fails: the minimum price \<^verbatim>\<open>-1e-400\<close> is negative, but it is read as the
  double nearest to it, which is zero; it passes validation, the store is queried with the
  lower bound 0 and the request is answered with a page.
\<close>

theorem tiny_negative_price_counterexample:
  "q_tiny ''minPrice'' = Some ''-1e-400''
   \<and> parseFloat ''-1e-400'' = Num 0
   \<and> list_validation q_tiny = []
   \<and> list_vehicles P0 db0 q_tiny =
       (Listing [(corolla, None), (accord, None)]
          \<lparr>currentPage = Num 1, totalPages = Num 1, totalVehicles = Num 2,
           hasNextPage = False, hasPrevPage = False\<rparr>,
        db0\<lparr>oplog := [VehicleFind (base_filter @ [(''price'', Range (Some (Num 0)) None)])
                        (''createdAt'', - 1) (Num 0) (Num 10),
                      VehicleCount (base_filter @ [(''price'', Range (Some (Num 0)) None)])]\<rparr>)
   \<and> status_code (fst (list_vehicles P0 db0 q_tiny)) = 200"
proof -
  have a: "q_tiny ''minPrice'' = Some ''-1e-400''" by (simp add: q_tiny_def)
  have fs: "float_shaped ''-1e-400''"
    by (simp add: float_shaped_def drop_sign_def is_sign_def is_digit_def Let_def)
  have nc: "replace_comma ''-1e-400'' = ''-1e-400''" by simp
  have v: "list_validation q_tiny = []"
    by (simp add: q_tiny_def list_validation_def check_optional_def isFloat_def fs nc parseFloat_tiny)
  have pl: "page_of q_tiny = Num 1" "limit_of q_tiny = Num 10"
    by (simp_all add: q_tiny_def page_of_absent limit_of_absent)
  have bf: "build_filter P0 q_tiny = Inr (base_filter @ [(''price'', Range (Some (Num 0)) None)])"
      "build_sort q_tiny = (''createdAt'', - 1)"
    by (simp_all add: q_tiny_def build_filter_def then_do_def assign_regex_def assign_eq_def
        assign_year_def assign_price_def truthy_def build_sort_def parseFloat_tiny base_filter_def)
  have run: "list_vehicles P0 db0 q_tiny =
       (Listing [(corolla, None), (accord, None)]
          \<lparr>currentPage = Num 1, totalPages = Num 1, totalVehicles = Num 2,
           hasNextPage = False, hasPrevPage = False\<rparr>,
        db0\<lparr>oplog := [VehicleFind (base_filter @ [(''price'', Range (Some (Num 0)) None)])
                        (''createdAt'', - 1) (Num 0) (Num 10),
                      VehicleCount (base_filter @ [(''price'', Range (Some (Num 0)) None)])]\<rparr>)"
    apply (simp add: list_vehicles_def list_vehicles_body_def catch_def v pl bf Let_def)
    by (simp add: base_filter_def make_pagination_eval Vehicle_find_def Vehicle_countDocuments_def
        cast_filter_def store_window_def safe_integer_def number_of_def window_def order_docs_def
        matches_def field_def populate_def to_number_whole is_integer_def data_defs)
  have st: "status_code (fst (list_vehicles P0 db0 q_tiny)) = 200" by (simp add: run)
  show ?thesis by (intro conjI a parseFloat_tiny v run st)
qed

section \<open>Who may update and delete\<close>

text \<open>
  C4. When the identifier resolves to a vehicle whose dealer is not the caller and the caller
  is not an admin, update and delete answer 403 and leave the vehicles as they were; when
  the identifier is well-formed and resolves to nothing, they answer 404. The only call to
  the store is the lookup.
\<close>

theorem mutation_forbidden_or_missing:
  "(stored d i = Some v \<and> dealer v \<noteq> user_id u \<and> role u \<noteq> ''admin'' \<longrightarrow>
      update_vehicle P d u i b =
        (Failure 403 ''Not authorized to update this vehicle'' None,
         d\<lparr>oplog := oplog d @ [VehicleFindById i]\<rparr>)
      \<and> delete_vehicle d u i =
        (Failure 403 ''Not authorized to delete this vehicle'' None,
         d\<lparr>oplog := oplog d @ [VehicleFindById i]\<rparr>)
      \<and> vehicles (snd (update_vehicle P d u i b)) = vehicles d
      \<and> vehicles (snd (delete_vehicle d u i)) = vehicles d)
   \<and> (valid_oid i \<and> stored d i = None \<longrightarrow>
      update_vehicle P d u i b =
        (Failure 404 ''Vehicle not found'' None, d\<lparr>oplog := oplog d @ [VehicleFindById i]\<rparr>)
      \<and> delete_vehicle d u i =
        (Failure 404 ''Vehicle not found'' None, d\<lparr>oplog := oplog d @ [VehicleFindById i]\<rparr>)
      \<and> vehicles (snd (update_vehicle P d u i b)) = vehicles d
      \<and> vehicles (snd (delete_vehicle d u i)) = vehicles d)"
proof -
  have a: "update_vehicle P d u i b =
        (Failure 403 ''Not authorized to update this vehicle'' None,
         d\<lparr>oplog := oplog d @ [VehicleFindById i]\<rparr>)"
    if "stored d i = Some v" "dealer v \<noteq> user_id u" "role u \<noteq> ''admin''"
    using that by (simp add: update_vehicle_def update_vehicle_body_def catch_def findById_found)
  have b: "delete_vehicle d u i =
        (Failure 403 ''Not authorized to delete this vehicle'' None,
         d\<lparr>oplog := oplog d @ [VehicleFindById i]\<rparr>)"
    if "stored d i = Some v" "dealer v \<noteq> user_id u" "role u \<noteq> ''admin''"
    using that by (simp add: delete_vehicle_def delete_vehicle_body_def catch_def findById_found)
  have c: "update_vehicle P d u i b =
        (Failure 404 ''Vehicle not found'' None, d\<lparr>oplog := oplog d @ [VehicleFindById i]\<rparr>)"
    if "valid_oid i" "stored d i = None"
    using that by (simp add: update_vehicle_def update_vehicle_body_def catch_def findById_missing)
  have e: "delete_vehicle d u i =
        (Failure 404 ''Vehicle not found'' None, d\<lparr>oplog := oplog d @ [VehicleFindById i]\<rparr>)"
    if "valid_oid i" "stored d i = None"
    using that by (simp add: delete_vehicle_def delete_vehicle_body_def catch_def findById_missing)
  show ?thesis using a b c e by simp
qed

theorem mutation_forbidden_or_missing_witness:
  "stored db0 ''64b000000000000000000001'' = Some corolla
   \<and> dealer corolla \<noteq> user_id buyer \<and> role buyer \<noteq> ''admin''
   \<and> fst (update_vehicle P0 db0 buyer ''64b000000000000000000001'' no_change) =
       Failure 403 ''Not authorized to update this vehicle'' None
   \<and> fst (delete_vehicle db0 buyer ''64b000000000000000000001'') =
       Failure 403 ''Not authorized to delete this vehicle'' None
   \<and> vehicles (snd (delete_vehicle db0 buyer ''64b000000000000000000001'')) = [corolla, civic, accord]
   \<and> valid_oid ''64b0000000000000000000ff'' \<and> stored db0 ''64b0000000000000000000ff'' = None
   \<and> fst (update_vehicle P0 db0 buyer ''64b0000000000000000000ff'' no_change) =
       Failure 404 ''Vehicle not found'' None
   \<and> fst (delete_vehicle db0 buyer ''64b0000000000000000000ff'') =
       Failure 404 ''Vehicle not found'' None"
proof -
  have s1: "stored db0 ''64b000000000000000000001'' = Some corolla"
    by (simp add: oid_defs data_defs)
  have o: "dealer corolla \<noteq> user_id buyer \<and> role buyer \<noteq> ''admin''"
    by (simp add: corolla_def buyer_def)
  have v2: "valid_oid ''64b0000000000000000000ff''" by (simp add: oid_defs)
  have s2: "stored db0 ''64b0000000000000000000ff'' = None"
    by (simp add: oid_defs data_defs)
  have vs: "vehicles db0 = [corolla, civic, accord]" by (simp add: db0_def)
  from mutation_forbidden_or_missing[of db0 "''64b000000000000000000001''" corolla buyer P0 no_change]
    mutation_forbidden_or_missing[of db0 "''64b0000000000000000000ff''" corolla buyer P0 no_change]
    s1 o v2 s2 vs
  show ?thesis by simp
qed

section \<open>The status of an inquiry\<close>

lemma status_validation_ok: "t \<in> set contact_statuses \<Longrightarrow> status_validation (Some t) = []"
  by (simp add: status_validation_def check_body_def or_else_def)

lemma status_validation_bad:
  "or_else st [] \<notin> set contact_statuses \<Longrightarrow>
     status_validation st = [field_error ''status'' ''Invalid status'' (or_else st [])]"
  by (simp add: status_validation_def check_body_def field_error_def)

text \<open>
  C5. For an inquiry the identifier resolves to, whatever its status, and a target among
  the four, the update answers 200 with the inquiry at the target status and read, and the
  store holds it so; a target outside the four (an absent one is the empty string) is
  answered 400 with the error of the status field, and the store is untouched.
\<close>

theorem contact_status_set:
  "(stored_contact d i = Some c \<and> t \<in> set contact_statuses \<longrightarrow>
      (\<exists>d1. set_contact_status d i (Some t) =
               (Success 200 ''Contact status updated''
                  (Some (ContactData (c\<lparr>c_status := t, c_isRead := True\<rparr>))), d1)
           \<and> stored_contact d1 i = Some (c\<lparr>c_status := t, c_isRead := True\<rparr>)
           \<and> vehicles d1 = vehicles d))
   \<and> (or_else st [] \<notin> set contact_statuses \<longrightarrow>
        set_contact_status d i st =
          (Failure 400 ''Validation failed''
             (Some (Fields [field_error ''status'' ''Invalid status'' (or_else st [])])), d))
   \<and> set contact_statuses = {''new'', ''in_progress'', ''resolved'', ''closed''}"
proof -
  have good: "\<exists>d1. set_contact_status d i (Some t) =
               (Success 200 ''Contact status updated''
                  (Some (ContactData (c\<lparr>c_status := t, c_isRead := True\<rparr>))), d1)
           \<and> stored_contact d1 i = Some (c\<lparr>c_status := t, c_isRead := True\<rparr>)
           \<and> vehicles d1 = vehicles d"
    if s: "stored_contact d i = Some c" and t: "t \<in> set contact_statuses"
  proof -
    have v: "valid_oid i" and f: "find (\<lambda>c. same_oid (c_oid c) i) (contacts d) = Some c"
      using s by (auto simp: stored_contact_def split: if_splits)
    have pc: "same_oid (c_oid c) i" using find_holds[OF f] .
    define c1 where "c1 = c\<lparr>c_status := t, c_isRead := True\<rparr>"
    define d1 where "d1 = d\<lparr>oplog := oplog d @ [ContactFindByIdAndUpdate i],
       contacts := replace_first (\<lambda>x. same_oid (c_oid x) i) c1 (contacts d)\<rparr>"
    have ok: "status_validation (Some t) = []"
      using t by (rule status_validation_ok)
    have run: "set_contact_status d i (Some t) =
        (Success 200 ''Contact status updated'' (Some (ContactData c1)), d1)"
      using v f ok
      by (simp add: set_contact_status_def set_contact_status_body_def catch_def Let_def
          Contact_findByIdAndUpdate_def or_else_def c1_def d1_def)
    have "find (\<lambda>c. same_oid (c_oid c) i) (replace_first (\<lambda>x. same_oid (c_oid x) i) c1 (contacts d)) = Some c1"
      using f pc by (intro find_replace_first[where v = c]) (auto simp: c1_def)
    then have "stored_contact d1 i = Some c1" using v by (simp add: stored_contact_def d1_def)
    then show ?thesis using run by (auto simp: c1_def d1_def)
  qed
  have bad: "set_contact_status d i st =
          (Failure 400 ''Validation failed''
             (Some (Fields [field_error ''status'' ''Invalid status'' (or_else st [])])), d)"
    if "or_else st [] \<notin> set contact_statuses"
    using that
    by (simp add: set_contact_status_def set_contact_status_body_def catch_def Let_def
        status_validation_bad)
  have four: "set contact_statuses = {''new'', ''in_progress'', ''resolved'', ''closed''}"
    by (simp add: contact_statuses_def)
  show ?thesis using good bad four by blast
qed

theorem contact_status_set_witness:
  "stored_contact db1 ''64c000000000000000000001'' = Some inquiry
   \<and> c_status inquiry = ''closed'' \<and> \<not> c_isRead inquiry
   \<and> ''new'' \<in> set contact_statuses
   \<and> fst (set_contact_status db1 ''64c000000000000000000001'' (Some ''new'')) =
       Success 200 ''Contact status updated''
         (Some (ContactData (inquiry\<lparr>c_status := ''new'', c_isRead := True\<rparr>)))
   \<and> ''archived'' \<notin> set contact_statuses
   \<and> set_contact_status db1 ''64c000000000000000000001'' (Some ''archived'') =
       (Failure 400 ''Validation failed''
          (Some (Fields [field_error ''status'' ''Invalid status'' ''archived''])), db1)"
proof -
  have s: "stored_contact db1 ''64c000000000000000000001'' = Some inquiry"
    by (simp add: stored_contact_def oid_defs db1_def inquiry_def)
  have i: "c_status inquiry = ''closed'' \<and> \<not> c_isRead inquiry" by (simp add: inquiry_def)
  have n: "''new'' \<in> set contact_statuses" "''archived'' \<notin> set contact_statuses"
    by (simp_all add: contact_statuses_def)
  have o: "or_else (Some ''archived'') [] = ''archived''" by (simp add: or_else_def)
  note th = contact_status_set[of db1 "''64c000000000000000000001''" inquiry "''new''" "Some ''archived''"]
  from th s n(1) have a: "fst (set_contact_status db1 ''64c000000000000000000001'' (Some ''new'')) =
       Success 200 ''Contact status updated''
         (Some (ContactData (inquiry\<lparr>c_status := ''new'', c_isRead := True\<rparr>)))"
    by fastforce
  from th n(2) have b: "set_contact_status db1 ''64c000000000000000000001'' (Some ''archived'') =
       (Failure 400 ''Validation failed''
          (Some (Fields [field_error ''status'' ''Invalid status'' ''archived''])), db1)"
    unfolding o by blast
  show ?thesis by (intro conjI s conjunct1[OF i] conjunct2[OF i] n a b)
qed

section \<open>The make and model parameters\<close>




section \<open>Malformed identifiers\<close>

text \<open>
  C7. The code does not do what the claim says. The identifier \<^verbatim>\<open>abc\<close> is malformed:
  the lookup throws a \<^verbatim>\<open>CastError\<close>, each route's own \<^verbatim>\<open>catch\<close> answers 500, and the
  terminal handler, which would answer 400 to that error, is never reached.
\<close>

theorem malformed_id_answered_500:
  "\<not> valid_oid ''abc''
   \<and> Vehicle_findById d (Some ''abc'') = (Inl CastError, d\<lparr>oplog := oplog d @ [VehicleFindById ''abc'']\<rparr>)
   \<and> get_vehicle P d ''abc'' = (Failure 500 ''Server error'' None, d\<lparr>oplog := oplog d @ [VehicleFindById ''abc'']\<rparr>)
   \<and> update_vehicle P d u ''abc'' b = (Failure 500 ''Server error'' None, d\<lparr>oplog := oplog d @ [VehicleFindById ''abc'']\<rparr>)
   \<and> delete_vehicle d u ''abc'' = (Failure 500 ''Server error'' None, d\<lparr>oplog := oplog d @ [VehicleFindById ''abc'']\<rparr>)
   \<and> status_code (fst (get_vehicle P d ''abc'')) = 500
   \<and> error_handler CastError st msg = Failure 400 ''Invalid ID format'' None
   \<and> status_code (error_handler CastError st msg) = 400"
proof -
  have n: "\<not> valid_oid ''abc''" by (simp add: valid_oid_def)
  show ?thesis
    using n by (simp add: get_vehicle_def get_vehicle_body_def update_vehicle_def update_vehicle_body_def
        delete_vehicle_def delete_vehicle_body_def catch_def findById_malformed error_handler_def)
qed

section \<open>A contact form for a vehicle that is not there\<close>

text \<open>
  C8. A submission that passes validation and names a vehicle identifier that resolves to
  nothing is answered 500 with a body whose \<^verbatim>\<open>success\<close> is false, and no inquiry is
  stored: the only call to the store is the lookup. When the identifier is well-formed the
  body of the handler throws the \<^verbatim>\<open>TypeError\<close> of the unchecked dereference, which the
  handler's own \<^verbatim>\<open>catch\<close> turns into that answer.
\<close>

theorem contact_for_missing_vehicle:
  "(contact_validation P b = [] \<and> ci_vehicleId b = Some i \<and> stored d i = None \<longrightarrow>
      submit_contact P d b =
        (Failure 500 ''Server error. Please try again later.'' None,
         d\<lparr>oplog := oplog d @ [VehicleFindById i]\<rparr>)
      \<and> success_flag (fst (submit_contact P d b)) = Some False
      \<and> contacts (snd (submit_contact P d b)) = contacts d
      \<and> (valid_oid i \<longrightarrow>
            submit_contact_body P d b = (Inl TypeError, d\<lparr>oplog := oplog d @ [VehicleFindById i]\<rparr>)))"
proof -
  have r: "submit_contact P d b =
        (Failure 500 ''Server error. Please try again later.'' None,
         d\<lparr>oplog := oplog d @ [VehicleFindById i]\<rparr>)"
    if v: "contact_validation P b = []" and i: "ci_vehicleId b = Some i" and s: "stored d i = None"
  proof -
    from findById_unresolved[OF s] obtain e where
      e: "Vehicle_findById d (Some i) = (e, d\<lparr>oplog := oplog d @ [VehicleFindById i]\<rparr>)"
      and c: "e = Inr None \<or> e = Inl CastError" by blast
    from c show ?thesis
    proof
      assume "e = Inr None"
      then show ?thesis using v i e
        by (simp add: submit_contact_def submit_contact_body_def catch_def Let_def)
    next
      assume "e = Inl CastError"
      then show ?thesis using v i e
        by (simp add: submit_contact_def submit_contact_body_def catch_def Let_def)
    qed
  qed
  have t: "submit_contact_body P d b = (Inl TypeError, d\<lparr>oplog := oplog d @ [VehicleFindById i]\<rparr>)"
    if "contact_validation P b = []" "ci_vehicleId b = Some i" "stored d i = None" "valid_oid i"
    using that by (simp add: submit_contact_body_def Let_def findById_missing)
  show ?thesis using r t by (simp add: success_flag_def)
qed

theorem contact_for_missing_vehicle_witness:
  "contact_validation P0 inquiry_form = [] \<and> ci_vehicleId inquiry_form = Some ''64b0000000000000000000ff''
   \<and> stored db0 ''64b0000000000000000000ff'' = None
   \<and> fst (submit_contact P0 db0 inquiry_form) = Failure 500 ''Server error. Please try again later.'' None
   \<and> contacts (snd (submit_contact P0 db0 inquiry_form)) = []"
proof -
  have v: "contact_validation P0 inquiry_form = []"
    by (simp add: contact_eval inquiry_form_def P0_def)
  have i: "ci_vehicleId inquiry_form = Some ''64b0000000000000000000ff''" by (simp add: inquiry_form_def)
  have s: "stored db0 ''64b0000000000000000000ff'' = None" by (simp add: oid_defs data_defs)
  have c: "contacts db0 = []" by (simp add: db0_def)
  note th = contact_for_missing_vehicle[of P0 inquiry_form "''64b0000000000000000000ff''" db0]
  from th v i s have a: "fst (submit_contact P0 db0 inquiry_form) = Failure 500 ''Server error. Please try again later.'' None"
    by simp
  from th v i s c have b: "contacts (snd (submit_contact P0 db0 inquiry_form)) = []"
    by simp
  show ?thesis by (intro conjI v i s a b)
qed

section \<open>The view counter\<close>

lemma get_vehicle_found:
  assumes s: "stored d i = Some v" and ok: "schema_errors P v = []"
  shows "get_vehicle P d i =
     (Single (populate (d\<lparr>oplog := oplog d @ [VehicleFindById i, VehicleSave (oid v)],
                          vehicles := replace_first (\<lambda>x. oid x = oid v)
                             (v\<lparr>views := round_double (views v + 1), updatedAt := now P\<rparr>) (vehicles d)\<rparr>)
                (v\<lparr>views := round_double (views v + 1), updatedAt := now P\<rparr>)),
      d\<lparr>oplog := oplog d @ [VehicleFindById i, VehicleSave (oid v)],
        vehicles := replace_first (\<lambda>x. oid x = oid v)
                      (v\<lparr>views := round_double (views v + 1), updatedAt := now P\<rparr>) (vehicles d)\<rparr>)"
  using ok
  by (simp add: get_vehicle_def get_vehicle_body_def catch_def findById_found[OF s]
      Vehicle_save_def Let_def schema_errors_views)

lemma stored_after_save:
  assumes s: "stored d i = Some v" and w: "oid w = oid v"
  shows "stored (d\<lparr>oplog := l, vehicles := replace_first (\<lambda>x. oid x = oid v) w (vehicles d)\<rparr>) i = Some w"
proof -
  have v: "valid_oid i" and f: "find (\<lambda>x. same_oid (oid x) i) (vehicles d) = Some v"
    using s by (auto simp: stored_def split: if_splits)
  have pv: "same_oid (oid v) i" using find_holds[OF f] .
  have "find (\<lambda>x. same_oid (oid x) i) (replace_first (\<lambda>x. oid x = oid v) w (vehicles d)) = Some w"
    using f pv w by (intro find_replace_first[where v = v]) auto
  then show ?thesis using v by (simp add: stored_def)
qed

lemma fetch_success:
  assumes g: "get_vehicle P d i = (Single x, d1)"
  shows "\<exists>v0. stored d i = Some v0 \<and> views (fst x) = round_double (views v0 + 1)
            \<and> stored d1 i = Some (fst x)"
proof (cases "valid_oid i")
  case False
  then show ?thesis using g
    by (simp add: get_vehicle_def get_vehicle_body_def catch_def findById_malformed)
next
  case True
  show ?thesis
  proof (cases "stored d i")
    case None
    then show ?thesis using g True
      by (simp add: get_vehicle_def get_vehicle_body_def catch_def findById_missing)
  next
    case (Some v0)
    show ?thesis
    proof (cases "schema_errors P v0 = []")
      case False
      then show ?thesis using g
        by (simp add: get_vehicle_def get_vehicle_body_def catch_def findById_found[OF Some]
            Vehicle_save_def Let_def schema_errors_views)
    next
      case ok: True
      have x: "fst x = v0\<lparr>views := round_double (views v0 + 1), updatedAt := now P\<rparr>"
        and d1: "d1 = d\<lparr>oplog := oplog d @ [VehicleFindById i, VehicleSave (oid v0)],
           vehicles := replace_first (\<lambda>x. oid x = oid v0)
              (v0\<lparr>views := round_double (views v0 + 1), updatedAt := now P\<rparr>) (vehicles d)\<rparr>"
        using g get_vehicle_found[OF Some ok] by (auto simp: populate_def)
      have "stored d1 i = Some (fst x)"
        unfolding d1 x by (rule stored_after_save[OF Some]) simp
      then show ?thesis using Some x by simp
    qed
  qed
qed

lemma whole_succ: "is_integer a \<Longrightarrow> is_integer (a + 1)"
proof -
  assume "is_integer a"
  then have "a = rat_of_int \<lfloor>a\<rfloor>" unfolding is_integer_def by (rule sym)
  then have "a + 1 = rat_of_int (\<lfloor>a\<rfloor> + 1)" by simp
  then have "rat_of_int \<lfloor>a + 1\<rfloor> = a + 1" by (metis floor_of_int)
  then show ?thesis by (simp add: is_integer_def)
qed

lemma count_one:
  assumes "is_integer a" and "\<bar>a\<bar> + 1 \<le> 2 ^ 53"
  shows "round_double (a + 1) = a + 1"
proof -
  have "\<bar>a + 1\<bar> \<le> \<bar>a\<bar> + 1" by simp
  then have "\<bar>a + 1\<bar> \<le> 9007199254740992" using assms(2) by simp
  with whole_succ[OF assms(1)] show ?thesis by (rule round_double_whole)
qed

lemma counter_step:
  assumes "counter_room (Suc n) v"
  shows "round_double (views v + 1) = views v + 1"
    and "counter_room n (v\<lparr>views := views v + 1, updatedAt := t\<rparr>)"
proof -
  from assms have i: "is_integer (views v)" and b: "\<bar>views v\<bar> + 1 + rat_of_nat n \<le> 2 ^ 53"
    by (simp_all add: counter_room_def algebra_simps)
  have "\<bar>views v\<bar> + 1 \<le> 2 ^ 53" using b by (simp add: add_increasing2 le_add_same_cancel1 order_trans[OF _ b])
  then show "round_double (views v + 1) = views v + 1" using i by (intro count_one)
  have "\<bar>views v + 1\<bar> \<le> \<bar>views v\<bar> + 1" by simp
  then have "\<bar>views v + 1\<bar> + rat_of_nat n \<le> 2 ^ 53" using b by simp
  then show "counter_room n (v\<lparr>views := views v + 1, updatedAt := t\<rparr>)"
    using whole_succ[OF i] by (simp add: counter_room_def)
qed

text \<open>
  C9, as amended. A fetch of a stored vehicle that passes the validation of the save and
  whose view counter is a whole number with room for two more views is answered with the
  vehicle, its view counter one more than before, and the store holds that vehicle under
  the identifier; a second fetch after it gives a counter two more than at the start. Every
  fetch answered with a vehicle has counted one view when the counter had room for it, and
  two such fetches in sequence have counted two when it had room for two. The listing leaves
  the vehicles, the contacts and the users as they were.
\<close>

theorem fetch_counts_view:
  "(stored d i = Some v \<and> schema_errors P v = [] \<and> schema_errors P2 v = [] \<and> counter_room 2 v \<longrightarrow>
      (\<exists>w s d1. get_vehicle P d i = (Single (w, s), d1)
          \<and> views w = views v + 1
          \<and> stored d1 i = Some w
          \<and> (\<exists>w2 s2 d2. get_vehicle P2 d1 i = (Single (w2, s2), d2)
                \<and> views w2 = views v + 2
                \<and> stored d2 i = Some w2)))
   \<and> (\<forall>x d1. get_vehicle P d i = (Single x, d1) \<longrightarrow>
         (\<exists>v0. stored d i = Some v0
            \<and> (counter_room 1 v0 \<longrightarrow> views (fst x) = views v0 + 1)
            \<and> stored d1 i = Some (fst x)))
   \<and> (\<forall>x d1 y d2. get_vehicle P d i = (Single x, d1) \<and> get_vehicle P2 d1 i = (Single y, d2) \<longrightarrow>
         (\<exists>v0. stored d i = Some v0
            \<and> (counter_room 2 v0 \<longrightarrow> views (fst y) = views v0 + 2)
            \<and> stored d2 i = Some (fst y)))
   \<and> vehicles (snd (list_vehicles P d q)) = vehicles d
   \<and> contacts (snd (list_vehicles P d q)) = contacts d
   \<and> users (snd (list_vehicles P d q)) = users d"
proof -
  have two_one: "counter_room 1 u" if "counter_room 2 u" for u
    using that by (simp add: counter_room_def)
  have one: "\<exists>w s d1. get_vehicle P d i = (Single (w, s), d1)
          \<and> views w = views v + 1
          \<and> stored d1 i = Some w
          \<and> (\<exists>w2 s2 d2. get_vehicle P2 d1 i = (Single (w2, s2), d2)
                \<and> views w2 = views v + 2
                \<and> stored d2 i = Some w2)"
    if s: "stored d i = Some v" and ok: "schema_errors P v = []" and ok2: "schema_errors P2 v = []"
      and room: "counter_room 2 v"
  proof -
    have r2: "counter_room (Suc 1) v" using room by (simp add: numeral_2_eq_2)
    have e1: "round_double (views v + 1) = views v + 1" using r2 by (rule counter_step(1))
    define w where "w = v\<lparr>views := views v + 1, updatedAt := now P\<rparr>"
    define d1 where "d1 = d\<lparr>oplog := oplog d @ [VehicleFindById i, VehicleSave (oid v)],
        vehicles := replace_first (\<lambda>x. oid x = oid v) w (vehicles d)\<rparr>"
    have rw: "counter_room 1 w" unfolding w_def using r2 by (rule counter_step(2))
    have g1: "get_vehicle P d i = (Single (populate d1 w), d1)"
      using get_vehicle_found[OF s ok] by (simp add: w_def d1_def e1)
    have s1: "stored d1 i = Some w"
      unfolding d1_def by (rule stored_after_save[OF s]) (simp add: w_def)
    have okw: "schema_errors P2 w = []" using ok2 by (simp add: w_def schema_errors_views)
    have rw1: "counter_room (Suc 0) w" using rw by simp
    have e2: "round_double (views w + 1) = views w + 1" using rw1 by (rule counter_step(1))
    define w2 where "w2 = w\<lparr>views := views w + 1, updatedAt := now P2\<rparr>"
    define d2 where "d2 = d1\<lparr>oplog := oplog d1 @ [VehicleFindById i, VehicleSave (oid w)],
        vehicles := replace_first (\<lambda>x. oid x = oid w) w2 (vehicles d1)\<rparr>"
    have g2: "get_vehicle P2 d1 i = (Single (populate d2 w2), d2)"
      using get_vehicle_found[OF s1 okw] by (simp add: w2_def d2_def e2)
    have s2: "stored d2 i = Some w2"
      unfolding d2_def by (rule stored_after_save[OF s1]) (simp add: w2_def)
    have v1: "views w = views v + 1" by (simp add: w_def)
    have v2: "views w2 = views v + 2" by (simp add: w2_def w_def)
    show ?thesis using g1 s1 g2 s2 v1 v2 by (simp add: populate_def)
  qed
  have any: "\<exists>v0. stored d i = Some v0
            \<and> (counter_room 1 v0 \<longrightarrow> views (fst x) = views v0 + 1)
            \<and> stored d1 i = Some (fst x)"
    if g: "get_vehicle P d i = (Single x, d1)" for x d1
  proof -
    from fetch_success[OF g] obtain v0 where
      a: "stored d i = Some v0" "views (fst x) = round_double (views v0 + 1)" "stored d1 i = Some (fst x)"
      by blast
    have "views (fst x) = views v0 + 1" if "counter_room 1 v0"
    proof -
      have "counter_room (Suc 0) v0" using that by simp
      then show ?thesis using a(2) by (simp add: counter_step(1))
    qed
    then show ?thesis using a by blast
  qed
  have two: "\<exists>v0. stored d i = Some v0
            \<and> (counter_room 2 v0 \<longrightarrow> views (fst y) = views v0 + 2)
            \<and> stored d2 i = Some (fst y)"
    if g1: "get_vehicle P d i = (Single x, d1)" and g2: "get_vehicle P2 d1 i = (Single y, d2)"
    for x d1 y d2
  proof -
    from fetch_success[OF g1] obtain v0 where
      a: "stored d i = Some v0" "views (fst x) = round_double (views v0 + 1)" "stored d1 i = Some (fst x)"
      by blast
    from fetch_success[OF g2] obtain v1 where
      b: "stored d1 i = Some v1" "views (fst y) = round_double (views v1 + 1)" "stored d2 i = Some (fst y)"
      by blast
    from a(3) b(1) have e: "v1 = fst x" by simp
    have "views (fst y) = views v0 + 2" if room: "counter_room 2 v0"
    proof -
      have r2: "counter_room (Suc 1) v0" using room by (simp add: numeral_2_eq_2)
      have x1: "views (fst x) = views v0 + 1" using a(2) counter_step(1)[OF r2] by simp
      have "is_integer (views v0)" "\<bar>views v0\<bar> + 2 \<le> 2 ^ 53"
        using room by (simp_all add: counter_room_def)
      then have "is_integer (views v0 + 1)" "\<bar>views v0 + 1\<bar> + 1 \<le> 2 ^ 53"
        by (simp_all add: whole_succ)
      then have "round_double (views v0 + 1 + 1) = views v0 + 1 + 1" by (rule count_one)
      then show ?thesis using b(2) e x1 by simp
    qed
    then show ?thesis using a(1) b(3) by blast
  qed
  have lst: "vehicles (snd (list_vehicles P d q)) = vehicles d
   \<and> contacts (snd (list_vehicles P d q)) = contacts d
   \<and> users (snd (list_vehicles P d q)) = users d"
    by (rule listing_reads_only)
  have A: "stored d i = Some v \<and> schema_errors P v = [] \<and> schema_errors P2 v = [] \<and> counter_room 2 v \<longrightarrow>
      (\<exists>w s d1. get_vehicle P d i = (Single (w, s), d1)
          \<and> views w = views v + 1
          \<and> stored d1 i = Some w
          \<and> (\<exists>w2 s2 d2. get_vehicle P2 d1 i = (Single (w2, s2), d2)
                \<and> views w2 = views v + 2
                \<and> stored d2 i = Some w2))"
    using one by blast
  have B: "\<forall>x d1. get_vehicle P d i = (Single x, d1) \<longrightarrow>
         (\<exists>v0. stored d i = Some v0
            \<and> (counter_room 1 v0 \<longrightarrow> views (fst x) = views v0 + 1)
            \<and> stored d1 i = Some (fst x))"
    using any by blast
  have C: "\<forall>x d1 y d2. get_vehicle P d i = (Single x, d1) \<and> get_vehicle P2 d1 i = (Single y, d2) \<longrightarrow>
         (\<exists>v0. stored d i = Some v0
            \<and> (counter_room 2 v0 \<longrightarrow> views (fst y) = views v0 + 2)
            \<and> stored d2 i = Some (fst y))"
    using two by blast
  show ?thesis
    by (intro conjI A B C conjunct1[OF lst] conjunct1[OF conjunct2[OF lst]]
        conjunct2[OF conjunct2[OF lst]])
qed

theorem fetch_counts_view_witness:
  "stored db0 ''64b000000000000000000001'' = Some corolla
   \<and> schema_errors P0 corolla = [] \<and> views corolla = 0 \<and> counter_room 2 corolla
   \<and> (\<exists>w s d1. get_vehicle P0 db0 ''64b000000000000000000001'' = (Single (w, s), d1)
          \<and> views w = 1
          \<and> (\<exists>w2 s2 d2. get_vehicle P0 d1 ''64b000000000000000000001'' = (Single (w2, s2), d2)
                \<and> views w2 = 2))"
proof -
  have s: "stored db0 ''64b000000000000000000001'' = Some corolla"
    by (simp add: oid_defs data_defs)
  have ok: "schema_errors P0 corolla = []"
    by (simp add: schema_errors_def required_string_def required_enum_def in_enum_def at_least_def
        year_errors_def dealer_errors_def fuelTypes_def transmissions_def bodyTypes_def
        conditions_def statuses_def oid_defs data_defs)
  have z: "views corolla = 0" by (simp add: corolla_def)
  have r: "counter_room 2 corolla" by (simp add: counter_room_def z is_integer_def)
  note th = fetch_counts_view[of db0 "''64b000000000000000000001''" corolla P0 P0]
  from conjunct1[OF th] s ok r obtain w s1 d1 w2 s2 d2 where
    g1: "get_vehicle P0 db0 ''64b000000000000000000001'' = (Single (w, s1), d1)"
    and v1: "views w = views corolla + 1"
    and g2: "get_vehicle P0 d1 ''64b000000000000000000001'' = (Single (w2, s2), d2)"
    and v2: "views w2 = views corolla + 2"
    by blast
  have e: "\<exists>w s d1. get_vehicle P0 db0 ''64b000000000000000000001'' = (Single (w, s), d1)
          \<and> views w = 1
          \<and> (\<exists>w2 s2 d2. get_vehicle P0 d1 ''64b000000000000000000001'' = (Single (w2, s2), d2)
                \<and> views w2 = 2)"
    using g1 g2 v1 v2 z by auto
  show ?thesis by (intro conjI s ok z r e)
qed

text \<open>
  C9, as stated, fails: a vehicle whose view counter has reached \<open>2 ^ 53\<close> is fetched with
  the answer 200 and the vehicle, and its counter is what it was: the sum of the counter
  and 1 is no double, and the nearest double is the counter itself.
\<close>

theorem full_counter_counterexample:
  "stored db2 ''64b000000000000000000001'' = Some veteran
   \<and> views veteran = 9007199254740992
   \<and> schema_errors P0 veteran = []
   \<and> get_vehicle P0 db2 ''64b000000000000000000001'' =
       (Single (veteran\<lparr>updatedAt := 2000\<rparr>, None),
        db2\<lparr>oplog := [VehicleFindById ''64b000000000000000000001'', VehicleSave ''64b000000000000000000001''],
            vehicles := [veteran\<lparr>updatedAt := 2000\<rparr>]\<rparr>)
   \<and> status_code (fst (get_vehicle P0 db2 ''64b000000000000000000001'')) = 200
   \<and> views (veteran\<lparr>updatedAt := 2000\<rparr>) = views veteran
   \<and> views (veteran\<lparr>updatedAt := 2000\<rparr>) \<noteq> views veteran + 1"
proof -
  have s: "stored db2 ''64b000000000000000000001'' = Some veteran"
    by (simp add: oid_defs db2_def veteran_def corolla_def)
  have z: "views veteran = 9007199254740992" by (simp add: veteran_def)
  have ok: "schema_errors P0 veteran = []"
    by (simp add: schema_errors_def required_string_def required_enum_def in_enum_def at_least_def
        year_errors_def dealer_errors_def fuelTypes_def transmissions_def bodyTypes_def
        conditions_def statuses_def oid_defs veteran_def corolla_def P0_def)
  have t: "round_double (views veteran + 1) = 9007199254740992"
    using round_double_tie by (simp add: z)
  have o: "oid veteran = ''64b000000000000000000001''" by (simp add: veteran_def corolla_def)
  have n: "now P0 = 2000" by (simp add: P0_def)
  have e: "veteran\<lparr>views := 9007199254740992, updatedAt := 2000\<rparr> = veteran\<lparr>updatedAt := 2000\<rparr>"
    by (simp add: veteran_def)
  have g: "get_vehicle P0 db2 ''64b000000000000000000001'' =
       (Single (veteran\<lparr>updatedAt := 2000\<rparr>, None),
        db2\<lparr>oplog := [VehicleFindById ''64b000000000000000000001'', VehicleSave ''64b000000000000000000001''],
            vehicles := [veteran\<lparr>updatedAt := 2000\<rparr>]\<rparr>)"
    using get_vehicle_found[OF s ok] by (simp add: t o n e populate_def db2_def)
  have c: "status_code (fst (get_vehicle P0 db2 ''64b000000000000000000001'')) = 200"
    by (simp add: g)
  have u: "views (veteran\<lparr>updatedAt := 2000\<rparr>) = views veteran" by simp
  have w: "views (veteran\<lparr>updatedAt := 2000\<rparr>) \<noteq> views veteran + 1" by simp
  show ?thesis by (intro conjI s z ok g c u w)
qed

section \<open>The owner of a created vehicle\<close>

lemma dealer_of_new: "dealer (new_vehicle P (vehicleData b u)) = user_id u"
  by (simp add: new_vehicle_def vehicleData_def or_else_def)

lemma create_outcome:
  "create_vehicle P d u b =
     (if create_validation P b \<noteq> []
      then (Failure 400 ''Validation failed'' (Some (Fields (create_validation P b))), d)
      else if input_errors P True (vehicleData (sanitized b) u) \<noteq> []
           \<or> list_ex (\<lambda>x. same_oid (oid x) (oid (new_vehicle P (vehicleData (sanitized b) u)))) (vehicles d)
      then (Failure 500 ''Server error'' None, d\<lparr>oplog := oplog d @ [VehicleCreate]\<rparr>)
      else (Success 201 ''Vehicle created successfully''
              (Some (VehicleData (Some (new_vehicle P (vehicleData (sanitized b) u),
                 users d (user_id u))))),
            d\<lparr>oplog := oplog d @ [VehicleCreate],
              vehicles := vehicles d @ [new_vehicle P (vehicleData (sanitized b) u)]\<rparr>))"
  by (simp add: create_vehicle_def create_vehicle_body_def catch_def Let_def Vehicle_create_def
      populate_def dealer_of_new)

text \<open>
  C10. The data handed to the store names the caller as the dealer, whatever the body says.
  Whatever the outcome, every vehicle in the store afterwards was there before or belongs
  to the caller; an answer 201 carries a vehicle of the caller, the one added to the store.
  When the body passes the route's validation, the data passes the schema's and the
  identifier is new, the answer is 201.
\<close>

theorem created_vehicle_owner:
  "in_dealer (vehicleData b u) = Some (user_id u)
   \<and> (\<forall>v \<in> set (vehicles (snd (create_vehicle P d u b))). v \<in> set (vehicles d) \<or> dealer v = user_id u)
   \<and> (\<forall>x. fst (create_vehicle P d u b) = Success 201 ''Vehicle created successfully'' (Some (VehicleData x)) \<longrightarrow>
         (\<exists>v s. x = Some (v, s) \<and> dealer v = user_id u
            \<and> vehicles (snd (create_vehicle P d u b)) = vehicles d @ [v]))
   \<and> (create_validation P b = []
       \<and> input_errors P True (vehicleData (sanitized b) u) = []
       \<and> \<not> list_ex (\<lambda>x. same_oid (oid x) (oid (new_vehicle P (vehicleData (sanitized b) u)))) (vehicles d) \<longrightarrow>
         (\<exists>v s d1. create_vehicle P d u b =
              (Success 201 ''Vehicle created successfully'' (Some (VehicleData (Some (v, s)))), d1)
            \<and> dealer v = user_id u \<and> vehicles d1 = vehicles d @ [v]))"
proof -
  have a: "in_dealer (vehicleData b u) = Some (user_id u)" by (simp add: vehicleData_def)
  have b: "\<forall>v \<in> set (vehicles (snd (create_vehicle P d u b))). v \<in> set (vehicles d) \<or> dealer v = user_id u"
    by (simp add: create_outcome dealer_of_new)
  have c: "\<forall>x. fst (create_vehicle P d u b) = Success 201 ''Vehicle created successfully'' (Some (VehicleData x)) \<longrightarrow>
         (\<exists>v s. x = Some (v, s) \<and> dealer v = user_id u
            \<and> vehicles (snd (create_vehicle P d u b)) = vehicles d @ [v])"
    by (simp add: create_outcome dealer_of_new)
  have e: "create_validation P b = []
       \<and> input_errors P True (vehicleData (sanitized b) u) = []
       \<and> \<not> list_ex (\<lambda>x. same_oid (oid x) (oid (new_vehicle P (vehicleData (sanitized b) u)))) (vehicles d) \<longrightarrow>
         (\<exists>v s d1. create_vehicle P d u b =
              (Success 201 ''Vehicle created successfully'' (Some (VehicleData (Some (v, s)))), d1)
            \<and> dealer v = user_id u \<and> vehicles d1 = vehicles d @ [v])"
    by (simp add: create_outcome dealer_of_new)
  show ?thesis by (intro conjI a b c e)
qed

theorem created_vehicle_owner_witness:
  "in_dealer listing_form = Some ''64a000000000000000000001''
   \<and> user_id buyer = ''64a000000000000000000002''
   \<and> create_validation P0 listing_form = []
   \<and> input_errors P0 True (vehicleData (sanitized listing_form) buyer) = []
   \<and> (\<exists>v s d1. create_vehicle P0 db0 buyer listing_form =
          (Success 201 ''Vehicle created successfully'' (Some (VehicleData (Some (v, s)))), d1)
        \<and> dealer v = ''64a000000000000000000002''
        \<and> model v = ''MX-5''
        \<and> vehicles d1 = [corolla, civic, accord, v])"
proof -
  have f: "in_dealer listing_form = Some ''64a000000000000000000001''"
    by (simp add: listing_form_def no_change_def)
  have u: "user_id buyer = ''64a000000000000000000002''" by (simp add: buyer_def)
  have v: "create_validation P0 listing_form = []"
    by (simp add: schema_eval listing_form_def no_change_def P0_def)
  have i: "input_errors P0 True (vehicleData (sanitized listing_form) buyer) = []"
    by (simp add: schema_eval oid_defs listing_form_def no_change_def P0_def buyer_def)
  have o: "oid (new_vehicle P0 (vehicleData (sanitized listing_form) buyer)) = ''64b000000000000000000009''"
    by (simp add: schema_eval listing_form_def no_change_def P0_def)
  have n: "\<not> list_ex (\<lambda>x. same_oid (oid x) (oid (new_vehicle P0 (vehicleData (sanitized listing_form) buyer)))) (vehicles db0)"
    unfolding o by (simp add: same_oid_def lower_def data_defs)
  have m: "model (new_vehicle P0 (vehicleData (sanitized listing_form) buyer)) = ''MX-5''"
    by (simp add: schema_eval listing_form_def no_change_def)
  have run: "create_vehicle P0 db0 buyer listing_form =
     (Success 201 ''Vehicle created successfully''
              (Some (VehicleData (Some (new_vehicle P0 (vehicleData (sanitized listing_form) buyer),
                 users db0 (user_id buyer))))),
            db0\<lparr>oplog := oplog db0 @ [VehicleCreate],
              vehicles := vehicles db0 @ [new_vehicle P0 (vehicleData (sanitized listing_form) buyer)]\<rparr>)"
    using v i n by (simp add: create_outcome)
  have vs: "vehicles db0 = [corolla, civic, accord]" by (simp add: db0_def)
  note th = created_vehicle_owner[of listing_form buyer P0 db0]
  from th u have dl: "dealer (new_vehicle P0 (vehicleData (sanitized listing_form) buyer)) = ''64a000000000000000000002''"
    using run by simp
  have ex: "\<exists>v s d1. create_vehicle P0 db0 buyer listing_form =
          (Success 201 ''Vehicle created successfully'' (Some (VehicleData (Some (v, s)))), d1)
        \<and> dealer v = ''64a000000000000000000002''
        \<and> model v = ''MX-5''
        \<and> vehicles d1 = [corolla, civic, accord, v]"
    using run dl m vs by simp
  show ?thesis by (intro conjI f u v i ex)
qed

end
